theory Spec2Isabelle
  imports Main
begin

section \<open>JSON values and the structured agent output (utils/codex.ts)\<close>

text \<open>
  The value \<^verbatim>\<open>JSON.parse\<close> yields. An object is the list of its own properties; a
  property that is absent reads as \<^verbatim>\<open>undefined\<close>, modelled by \<open>None\<close>.
\<close>

datatype json =
    JNull
  | JBool bool
  | JNum int
  | JStr string
  | JArr "json list"
  | JObj "(string \<times> json) list"

text \<open>\<^verbatim>\<open>typeof value === "object" && value !== null\<close>: objects and arrays.\<close>

definition is_object :: "json \<Rightarrow> bool" where
  "is_object v = (case v of JObj _ \<Rightarrow> True | JArr _ \<Rightarrow> True | _ \<Rightarrow> False)"

text \<open>\<^verbatim>\<open>record[key]\<close> for the keys the code reads (never an index or \<^verbatim>\<open>length\<close>).\<close>

definition getProp :: "json \<Rightarrow> string \<Rightarrow> json option" where
  "getProp v key = (case v of JObj fs \<Rightarrow> map_of fs key | _ \<Rightarrow> None)"

text \<open>JavaScript truthiness of a value that may be \<^verbatim>\<open>undefined\<close>.\<close>

definition truthy :: "json option \<Rightarrow> bool" where
  "truthy v =
    (case v of
       None \<Rightarrow> False
     | Some JNull \<Rightarrow> False
     | Some (JBool b) \<Rightarrow> b
     | Some (JNum n) \<Rightarrow> n \<noteq> 0
     | Some (JStr s) \<Rightarrow> s \<noteq> []
     | Some _ \<Rightarrow> True)"

text \<open>\<^verbatim>\<open>x ?? null\<close>.\<close>

definition orNull :: "json option \<Rightarrow> json" where
  "orNull v = (case v of None \<Rightarrow> JNull | Some x \<Rightarrow> x)"

definition is_string :: "json \<Rightarrow> bool" where
  "is_string v = (case v of JStr _ \<Rightarrow> True | _ \<Rightarrow> False)"

text \<open>
  \<^verbatim>\<open>x != null && typeof x !== "string" && x !== null\<close> rejects; so \<^verbatim>\<open>undefined\<close>,
  \<^verbatim>\<open>null\<close> and strings pass.
\<close>

definition nullishOrString :: "json option \<Rightarrow> bool" where
  "nullishOrString v =
    (case v of None \<Rightarrow> True | Some JNull \<Rightarrow> True | Some (JStr _) \<Rightarrow> True | Some _ \<Rightarrow> False)"

text \<open>\<^verbatim>\<open>x !== null && typeof x !== "string"\<close> rejects, for a property that is present.\<close>

definition nullOrString :: "json option \<Rightarrow> bool" where
  "nullOrString v =
    (case v of Some JNull \<Rightarrow> True | Some (JStr _) \<Rightarrow> True | _ \<Rightarrow> False)"

definition isAgentGeneratedFile :: "json \<Rightarrow> bool" where
  "isAgentGeneratedFile v =
    (if \<not> is_object v then False
     else if (case getProp v ''path'' of Some (JStr p) \<Rightarrow> p = [] | _ \<Rightarrow> True) then False
     else if \<not> nullishOrString (getProp v ''content'') then False
     else if \<not> nullishOrString (getProp v ''description'') then False
     else True)"

definition isAgentStructuredOutput :: "json \<Rightarrow> bool" where
  "isAgentStructuredOutput v =
    (if \<not> is_object v then False
     else if getProp v ''inferenceStatus'' \<noteq> Some (JStr ''solved'')
           \<and> getProp v ''inferenceStatus'' \<noteq> Some (JStr ''awaiting_hint'')
           \<and> getProp v ''inferenceStatus'' \<noteq> Some (JStr ''failed'') then False
     else if (case getProp v ''summary'' of Some (JStr s) \<Rightarrow> s = [] | _ \<Rightarrow> True) then False
     else if getProp v ''flag'' = None then False
     else if \<not> nullOrString (getProp v ''flag'') then False
     else if getProp v ''solveCode'' = None then False
     else if \<not> nullOrString (getProp v ''solveCode'') then False
     else if getProp v ''writeUp'' = None then False
     else if \<not> nullOrString (getProp v ''writeUp'') then False
     else if getProp v ''solutionFiles'' = None then False
     else if (case getProp v ''solutionFiles'' of
                Some JNull \<Rightarrow> False
              | Some (JArr fs) \<Rightarrow> \<not> list_all isAgentGeneratedFile fs
              | _ \<Rightarrow> True) then False
     else if getProp v ''nextSteps'' = None then False
     else if (case getProp v ''nextSteps'' of
                Some JNull \<Rightarrow> False
              | Some (JArr xs) \<Rightarrow> \<not> list_all is_string xs
              | _ \<Rightarrow> True) then False
     else True)"

text \<open>
  \<^verbatim>\<open>parseAgentStructuredOutput(raw)\<close>. The argument is what \<^verbatim>\<open>JSON.parse(raw)\<close>
  yields, \<open>None\<close> when it throws; the parsed object itself is returned.
\<close>

definition parseAgentStructuredOutput :: "json option \<Rightarrow> json option" where
  "parseAgentStructuredOutput parsed =
    (case parsed of
       None \<Rightarrow> None
     | Some v \<Rightarrow> if isAgentStructuredOutput v then Some v else None)"


section \<open>Strings\<close>

text \<open>The three bytes of U+2026, the ellipsis \<^verbatim>\<open>truncate\<close> appends.\<close>

definition ellipsis :: string where
  "ellipsis = [CHR 0xE2, CHR 0x80, CHR 0xA6]"

definition truncate_str :: "string \<Rightarrow> nat \<Rightarrow> string" where
  "truncate_str v n = (if length v \<le> n then v else take n v @ ellipsis)"

definition is_ws :: "char \<Rightarrow> bool" where
  "is_ws c = (c \<in> set [CHR '' '', CHR 0x09, CHR 0x0A, CHR 0x0B, CHR 0x0C, CHR 0x0D])"

definition trim :: "string \<Rightarrow> string" where
  "trim s = rev (dropWhile is_ws (rev (dropWhile is_ws s)))"

fun joinParagraphs :: "string list \<Rightarrow> string" where
  "joinParagraphs [] = []"
| "joinParagraphs [p] = p"
| "joinParagraphs (p # ps) = p @ [CHR 0x0A, CHR 0x0A] @ joinParagraphs ps"

definition clampConcurrency :: "int option \<Rightarrow> int" where
  "clampConcurrency parsed =
    (case parsed of None \<Rightarrow> 4 | Some n \<Rightarrow> if n < 1 then 4 else n)"


section \<open>Sessions, events and the manager's state (sessionManager.ts)\<close>

datatype SessionStatus = Pending | Running | Awaiting_hint | Completed | Cancelled | Error_status

datatype EventLevel = Info | Task | Warning | Error_level

record ProblemMetadata =
  category :: string
  title :: string
  description :: string

record SessionEventPayload =
  level :: EventLevel
  message :: string
  details :: "json option"

record SessionEvent = SessionEventPayload +
  id_e :: nat
  timestamp :: nat

record Session =
  id_s :: nat
  createdAt :: nat
  updatedAt :: nat
  status :: SessionStatus
  problem :: ProblemMetadata
  workspacePath :: string
  artifactPath :: "string option"
  threadId :: "string option"
  result :: "json option"
  events :: "SessionEvent list"
  error :: "string option"

datatype exn =
    SessionManagerError string nat string
  | JsError string

text \<open>What a socket is sent: the payloads of \<^verbatim>\<open>broadcast\<close> and \<^verbatim>\<open>registerClient\<close>.\<close>

datatype ws_message =
    Snapshot Session
  | EventMsg SessionEvent
  | StatusMsg SessionStatus nat
  | AgentResult json
  | ErrorMsg string

datatype ready_state = CONNECTING | OPEN | CLOSING | CLOSED

datatype run_source = Initial | Hint

text \<open>The call a run issues to the engine: \<^verbatim>\<open>startThread\<close> or \<^verbatim>\<open>resumeThread(threadId)\<close>,
  then \<^verbatim>\<open>runStreamed(prompt)\<close>.\<close>

datatype engine_call = StartThread string | ResumeThread string string

text \<open>
  Where an invocation of \<^verbatim>\<open>runAgentSession\<close> is suspended: in the slot queue, resolved
  by \<^verbatim>\<open>releaseAgentSlot\<close> but not yet resumed, holding a slot with the \<^verbatim>\<open>await\<close> of
  \<^verbatim>\<open>acquireAgentSlot\<close> pending, awaiting \<^verbatim>\<open>reqPrompt\<close>, awaiting \<^verbatim>\<open>runStreamed\<close>,
  awaiting the next item of the stream, or awaiting \<^verbatim>\<open>events.return()\<close> after \<^verbatim>\<open>break\<close>.
\<close>

datatype run_pc =
    Queued
  | Woken
  | Acquired
  | AwaitPrompt
  | AwaitStream engine_call
  | Pumping
  | Breaking

record run =
  r_session :: nat
  r_source :: run_source
  r_hint :: "string option"
  r_pc :: run_pc
  r_cancelled :: bool

text \<open>
  The manager. \<open>activeStreams\<close> maps a session to the run whose controller is stored;
  \<open>slotQueue\<close> holds the resolve callbacks by the run each resumes. \<open>runs\<close> and
  \<open>removals\<close> are the suspended invocations of \<^verbatim>\<open>runAgentSession\<close> and
  \<^verbatim>\<open>removeSession\<close>. \<open>clock\<close> is \<^verbatim>\<open>Date.now()\<close>, \<open>uuidCounter\<close> the next
  \<^verbatim>\<open>randomUUID()\<close>; \<open>readyState\<close>, \<open>sent\<close> and \<open>closes\<close> are the sockets' side.
\<close>

record manager =
  sessions :: "nat \<rightharpoonup> Session"
  clients :: "nat \<rightharpoonup> nat list"
  activeStreams :: "nat \<rightharpoonup> nat"
  maxConcurrentAgents :: int
  activeAgentCount :: int
  slotQueue :: "nat list"
  runs :: "nat \<rightharpoonup> run"
  removals :: "nat \<rightharpoonup> nat"
  nextTask :: nat
  clock :: nat
  uuidCounter :: nat
  readyState :: "nat \<Rightarrow> ready_state"
  sent :: "(nat \<times> ws_message) list"
  closes :: "(nat \<times> nat \<times> string) list"

definition init :: "int option \<Rightarrow> manager" where
  "init concurrencyEnv =
    \<lparr>sessions = Map.empty, clients = Map.empty, activeStreams = Map.empty,
     maxConcurrentAgents = clampConcurrency concurrencyEnv, activeAgentCount = 0,
     slotQueue = [], runs = Map.empty, removals = Map.empty, nextTask = 0,
     clock = 0, uuidCounter = 0, readyState = (\<lambda>_. OPEN), sent = [], closes = []\<rparr>"

definition andThen :: "exn + 'a \<Rightarrow> ('a \<Rightarrow> exn + 'b) \<Rightarrow> exn + 'b" where
  "andThen r f = (case r of Inl e \<Rightarrow> Inl e | Inr x \<Rightarrow> f x)"

definition broadcast :: "nat \<Rightarrow> ws_message \<Rightarrow> manager \<Rightarrow> manager" where
  "broadcast sessionId payload m =
    (case clients m sessionId of
       None \<Rightarrow> m
     | Some socks \<Rightarrow>
         m\<lparr>sent := sent m @ map (\<lambda>s. (s, payload)) (filter (\<lambda>s. readyState m s = OPEN) socks),
           clients := (clients m)(sessionId \<mapsto>
             filter (\<lambda>s. readyState m s \<noteq> CLOSING \<and> readyState m s \<noteq> CLOSED) socks)\<rparr>)"

definition broadcastSnapshot :: "nat \<Rightarrow> manager \<Rightarrow> manager" where
  "broadcastSnapshot sessionId m =
    (case sessions m sessionId of
       None \<Rightarrow> m
     | Some session \<Rightarrow> broadcast sessionId (Snapshot session) m)"

definition mkEvent :: "SessionEventPayload \<Rightarrow> nat \<Rightarrow> nat \<Rightarrow> SessionEvent" where
  "mkEvent payload uuid now =
    \<lparr>level = level payload, message = message payload, details = details payload,
     id_e = uuid, timestamp = now\<rparr>"

definition publishEvent :: "nat \<Rightarrow> SessionEventPayload \<Rightarrow> manager \<Rightarrow> exn + manager" where
  "publishEvent sessionId payload m =
    (case sessions m sessionId of
       None \<Rightarrow> Inl (JsError ''Cannot publish event: session not found.'')
     | Some session \<Rightarrow>
         let event = mkEvent payload (uuidCounter m) (clock m);
             session' = session\<lparr>updatedAt := timestamp event, events := events session @ [event]\<rparr>
         in Inr (broadcast sessionId (EventMsg event)
                  (m\<lparr>sessions := (sessions m)(sessionId \<mapsto> session'),
                     uuidCounter := uuidCounter m + 1\<rparr>)))"

definition updateStatus :: "nat \<Rightarrow> SessionStatus \<Rightarrow> manager \<Rightarrow> exn + manager" where
  "updateStatus sessionId st m =
    (case sessions m sessionId of
       None \<Rightarrow> Inl (JsError ''Cannot update status: session not found.'')
     | Some session \<Rightarrow>
         Inr (broadcast sessionId (StatusMsg st (clock m))
               (m\<lparr>sessions := (sessions m)(sessionId \<mapsto>
                    session\<lparr>status := st, updatedAt := clock m\<rparr>)\<rparr>)))"

definition updateSessionMetadata :: "nat \<Rightarrow> (Session \<Rightarrow> Session) \<Rightarrow> manager \<Rightarrow> manager" where
  "updateSessionMetadata sessionId mutator m =
    (case sessions m sessionId of
       None \<Rightarrow> m
     | Some session \<Rightarrow>
         m\<lparr>sessions := (sessions m)(sessionId \<mapsto> (mutator session)\<lparr>updatedAt := clock m\<rparr>)\<rparr>)"


section \<open>The event normalizer\<close>

datatype ItemEventPhase = Started | Updated | Completed_phase

definition phaseName :: "ItemEventPhase \<Rightarrow> string" where
  "phaseName p = (case p of Started \<Rightarrow> ''started'' | Updated \<Rightarrow> ''updated''
                  | Completed_phase \<Rightarrow> ''completed'')"

text \<open>
  The items and events of the engine's stream, with the fields the handlers read. An
  agent message carries its text and what \<^verbatim>\<open>JSON.parse\<close> yields for it (\<open>None\<close> when
  it throws).
\<close>

datatype ThreadItem =
    CommandExecutionItem string string "int option" string
  | FileChangeItem string json
  | McpToolCallItem string string string "json option" "json option"
  | TodoListItem json
  | AgentMessageItem string "json option"
  | ReasoningItem string
  | WebSearchItem string
  | ErrorItem string
  | UnknownItem

datatype ThreadEvent =
    ThreadStarted string
  | TurnStarted
  | TurnCompleted json
  | TurnFailed string
  | ItemStarted ThreadItem
  | ItemUpdated ThreadItem
  | ItemCompleted ThreadItem
  | ErrorEvent string
  | UnknownEvent

definition handleCommandExecution ::
  "nat \<Rightarrow> string \<Rightarrow> string \<Rightarrow> int option \<Rightarrow> string \<Rightarrow> ItemEventPhase \<Rightarrow> manager \<Rightarrow> exn + manager" where
  "handleCommandExecution sessionId command aggregated_output exit_code st phase m =
    (let baseDetails =
           [(''command'', JStr command), (''status'', JStr st)]
           @ (if aggregated_output \<noteq> [] then [(''output'', JStr (truncate_str aggregated_output 600))] else [])
           @ (case exit_code of None \<Rightarrow> [] | Some c \<Rightarrow> [(''exitCode'', JNum c)])
     in publishEvent sessionId
          \<lparr>level = (if st = ''failed'' then Error_level else Task),
           message = (if phase = Started then ''Executing command: '' @ command
                      else ''Command '' @ phaseName phase @ '': '' @ command),
           details = Some (JObj baseDetails)\<rparr> m)"

definition handleMcpToolCall ::
  "nat \<Rightarrow> string \<Rightarrow> string \<Rightarrow> string \<Rightarrow> json option \<Rightarrow> json option \<Rightarrow> ItemEventPhase \<Rightarrow> manager \<Rightarrow> exn + manager" where
  "handleMcpToolCall sessionId server tool st res err phase m =
    publishEvent sessionId
      \<lparr>level = (if st = ''failed'' then Error_level else Info),
       message = ''MCP tool call '' @ phaseName phase @ '': '' @ tool,
       details = Some (JObj
         ([(''server'', JStr server), (''tool'', JStr tool), (''status'', JStr st),
           (''phase'', JStr (phaseName phase))]
          @ (if truthy res then [(''result'', orNull res)] else [])
          @ (if truthy err then [(''error'', orNull err)] else [])))\<rparr> m"

text \<open>The \<^verbatim>\<open>inferenceStatus\<close> of a parsed output, as the text the handler compares.\<close>

definition inferenceStatus :: "json \<Rightarrow> string" where
  "inferenceStatus structured =
    (case getProp structured ''inferenceStatus'' of Some (JStr s) \<Rightarrow> s | _ \<Rightarrow> [])"

text \<open>\<^verbatim>\<open>detailPayload\<close> of \<^verbatim>\<open>handleAgentMessage\<close>.\<close>

definition detailPayload :: "json \<Rightarrow> json" where
  "detailPayload structured =
    JObj ([(''inferenceStatus'', orNull (getProp structured ''inferenceStatus'')),
           (''summary'', orNull (getProp structured ''summary'')),
           (''flag'', orNull (getProp structured ''flag'')),
           (''solveCodePath'', orNull (getProp structured ''solveCodePath'')),
           (''writeUpPath'', orNull (getProp structured ''writeUpPath''))]
          @ (if truthy (getProp structured ''solutionFiles'')
             then [(''solutionFiles'', orNull (getProp structured ''solutionFiles''))] else [])
          @ (if truthy (getProp structured ''nextSteps'')
             then [(''nextSteps'', orNull (getProp structured ''nextSteps''))] else []))"

definition handleAgentMessage :: "nat \<Rightarrow> string \<Rightarrow> json option \<Rightarrow> manager \<Rightarrow> exn + manager" where
  "handleAgentMessage sessionId text parsed m =
    (case parseAgentStructuredOutput parsed of
       None \<Rightarrow>
         publishEvent sessionId
           \<lparr>level = Info, message = ''Agent response'',
            details = Some (JObj [(''content'', JStr (truncate_str text 600))])\<rparr> m
     | Some structured \<Rightarrow>
         andThen
           (publishEvent sessionId
              \<lparr>level = (if inferenceStatus structured = ''solved'' then Info
                        else if inferenceStatus structured = ''failed'' then Error_level
                        else Warning),
               message = ''Agent reported status: '' @ inferenceStatus structured,
               details = Some (detailPayload structured)\<rparr>
              (updateSessionMetadata sessionId
                 (\<lambda>session. session\<lparr>result := Some structured, error := None\<rparr>) m))
           (\<lambda>m1.
              let m2 = broadcastSnapshot sessionId (broadcast sessionId (AgentResult structured) m1)
              in if inferenceStatus structured = ''solved'' then updateStatus sessionId Completed m2
                 else if inferenceStatus structured = ''failed'' then updateStatus sessionId Awaiting_hint m2
                 else updateStatus sessionId Awaiting_hint m2))"

definition handleItemEvent :: "nat \<Rightarrow> ThreadItem \<Rightarrow> ItemEventPhase \<Rightarrow> manager \<Rightarrow> exn + manager" where
  "handleItemEvent sessionId item phase m =
    (case item of
       CommandExecutionItem command aggregated_output exit_code st \<Rightarrow>
         handleCommandExecution sessionId command aggregated_output exit_code st phase m
     | FileChangeItem st changes \<Rightarrow>
         if phase = Completed_phase
         then publishEvent sessionId
                \<lparr>level = Info, message = ''Agent applied file changes.'',
                 details = Some (JObj [(''status'', JStr st), (''changes'', changes)])\<rparr> m
         else Inr m
     | McpToolCallItem server tool st res err \<Rightarrow>
         handleMcpToolCall sessionId server tool st res err phase m
     | TodoListItem items \<Rightarrow>
         publishEvent sessionId
           \<lparr>level = Info,
            message = (if phase = Completed_phase then ''Agent plan finalised.'' else ''Agent plan updated.''),
            details = Some (JObj [(''items'', items), (''phase'', JStr (phaseName phase))])\<rparr> m
     | AgentMessageItem text parsed \<Rightarrow>
         if phase = Completed_phase then handleAgentMessage sessionId text parsed m
         else publishEvent sessionId
                \<lparr>level = Info, message = ''Agent update'',
                 details = Some (JObj [(''content'', JStr (truncate_str text 400)),
                                       (''phase'', JStr (phaseName phase))])\<rparr> m
     | ReasoningItem text \<Rightarrow>
         publishEvent sessionId
           \<lparr>level = Info, message = ''Agent reasoning update.'',
            details = Some (JObj [(''content'', JStr (truncate_str text 400)),
                                  (''phase'', JStr (phaseName phase))])\<rparr> m
     | WebSearchItem query \<Rightarrow>
         publishEvent sessionId
           \<lparr>level = Task, message = ''Agent performing web search.'',
            details = Some (JObj [(''query'', JStr query), (''phase'', JStr (phaseName phase))])\<rparr> m
     | ErrorItem msg \<Rightarrow>
         andThen
           (publishEvent sessionId
              \<lparr>level = Error_level, message = ''Agent reported an error.'',
               details = Some (JObj [(''message'', JStr msg)])\<rparr> m)
           (updateStatus sessionId Awaiting_hint)
     | UnknownItem \<Rightarrow> Inr m)"

definition handleThreadEvent :: "nat \<Rightarrow> ThreadEvent \<Rightarrow> manager \<Rightarrow> exn + manager" where
  "handleThreadEvent sessionId event m =
    (case event of
       ThreadStarted thread_id \<Rightarrow>
         andThen
           (publishEvent sessionId
              \<lparr>level = Info, message = ''Codex thread established.'',
               details = Some (JObj [(''threadId'', JStr thread_id)])\<rparr>
              (updateSessionMetadata sessionId (\<lambda>session. session\<lparr>threadId := Some thread_id\<rparr>) m))
           (\<lambda>m1. Inr (broadcastSnapshot sessionId m1))
     | TurnStarted \<Rightarrow>
         publishEvent sessionId \<lparr>level = Task, message = ''Agent turn started.'', details = None\<rparr> m
     | TurnCompleted usage \<Rightarrow>
         publishEvent sessionId
           \<lparr>level = Info, message = ''Agent turn completed.'', details = Some usage\<rparr> m
     | TurnFailed msg \<Rightarrow>
         andThen
           (andThen
              (publishEvent sessionId
                 \<lparr>level = Error_level, message = ''Agent turn failed.'',
                  details = Some (JObj [(''message'', JStr msg)])\<rparr> m)
              (updateStatus sessionId Awaiting_hint))
           (\<lambda>m2. Inr (updateSessionMetadata sessionId (\<lambda>session. session\<lparr>error := Some msg\<rparr>) m2))
     | ItemStarted item \<Rightarrow> handleItemEvent sessionId item Started m
     | ItemUpdated item \<Rightarrow> handleItemEvent sessionId item Updated m
     | ItemCompleted item \<Rightarrow> handleItemEvent sessionId item Completed_phase m
     | ErrorEvent msg \<Rightarrow>
         andThen
           (publishEvent sessionId \<lparr>level = Error_level, message = msg, details = None\<rparr> m)
           (updateStatus sessionId Awaiting_hint)
     | UnknownEvent \<Rightarrow> Inr m)"


section \<open>Admission: \<^verbatim>\<open>acquireAgentSlot\<close> and \<^verbatim>\<open>releaseAgentSlot\<close>\<close>

definition set_pc :: "nat \<Rightarrow> run_pc \<Rightarrow> manager \<Rightarrow> manager" where
  "set_pc t pc m =
    (case runs m t of
       None \<Rightarrow> m
     | Some r \<Rightarrow> m\<lparr>runs := (runs m)(t \<mapsto> r\<lparr>r_pc := pc\<rparr>)\<rparr>)"

text \<open>
  \<^verbatim>\<open>acquireAgentSlot\<close>, called by run \<open>t\<close>, up to its first suspension: with a free slot
  the count is raised and the call returns; otherwise the resolve callback is pushed
  and the call stays suspended until \<^verbatim>\<open>releaseAgentSlot\<close> resolves it.
\<close>

definition acquireAgentSlot :: "nat \<Rightarrow> manager \<Rightarrow> manager" where
  "acquireAgentSlot t m =
    (if activeAgentCount m < maxConcurrentAgents m
     then set_pc t Acquired (m\<lparr>activeAgentCount := activeAgentCount m + 1\<rparr>)
     else set_pc t Queued (m\<lparr>slotQueue := slotQueue m @ [t]\<rparr>))"

text \<open>The rest of \<^verbatim>\<open>acquireAgentSlot\<close>, run when the resolved waiter is resumed.\<close>

definition acquireAgentSlot_resumed :: "nat \<Rightarrow> manager \<Rightarrow> manager" where
  "acquireAgentSlot_resumed t m =
    set_pc t Acquired (m\<lparr>activeAgentCount := activeAgentCount m + 1\<rparr>)"

definition releaseAgentSlot :: "manager \<Rightarrow> manager" where
  "releaseAgentSlot m =
    (let m1 = m\<lparr>activeAgentCount := max 0 (activeAgentCount m - 1)\<rparr>
     in case slotQueue m1 of
          [] \<Rightarrow> m1
        | next # rest \<Rightarrow> set_pc next Woken (m1\<lparr>slotQueue := rest\<rparr>))"


section \<open>\<^verbatim>\<open>runAgentSession\<close>, segment by segment\<close>

definition nonEmpty :: "string option \<Rightarrow> bool" where
  "nonEmpty s = (case s of None \<Rightarrow> False | Some x \<Rightarrow> x \<noteq> [])"

definition buildHintPrompt :: "Session \<Rightarrow> string \<Rightarrow> string" where
  "buildHintPrompt session hint =
    joinParagraphs
      [''Operator follow-up hint for ['' @ category (problem session) @ ''] ''
         @ title (problem session) @ '':'',
       trim hint,
       ''Integrate this guidance, continue progressing toward the flag, and respond exclusively with JSON that matches the previously provided schema.'',
       ''Summaries must remain concise and include any new artifacts or flags discovered.'']"

text \<open>Lines 402 to 434: from the call to the \<^verbatim>\<open>await\<close> of \<^verbatim>\<open>acquireAgentSlot\<close>. A
  throw rejects the promise the callers discard; the invocation is then over. The
  invocation that goes on is recorded as a run, under the next task number.\<close>

definition runAgentSession_await :: "nat \<Rightarrow> run_source \<Rightarrow> string option \<Rightarrow> manager \<Rightarrow> manager" where
  "runAgentSession_await sessionId source hint m =
    (let t = nextTask m
     in acquireAgentSlot t
          (m\<lparr>nextTask := t + 1,
             runs := (runs m)(t \<mapsto>
               \<lparr>r_session = sessionId, r_source = source, r_hint = hint,
                r_pc = Queued, r_cancelled = False\<rparr>)\<rparr>))"

definition runAgentSession :: "nat \<Rightarrow> run_source \<Rightarrow> string option \<Rightarrow> manager \<Rightarrow> manager" where
  "runAgentSession sessionId source hint m =
    (if activeStreams m sessionId \<noteq> None then m
     else case sessions m sessionId of
       None \<Rightarrow> m
     | Some session \<Rightarrow>
         if source = Hint \<and> \<not> nonEmpty (threadId session) then m
         else if maxConcurrentAgents m \<le> activeAgentCount m
         then (case publishEvent sessionId
                      \<lparr>level = Info,
                       message = ''Agent run queued awaiting available execution slot.'',
                       details = Some (JObj [(''maxConcurrentAgents'', JNum (maxConcurrentAgents m))])\<rparr> m
               of Inl _ \<Rightarrow> m
                | Inr m1 \<Rightarrow> runAgentSession_await sessionId source hint m1)
         else runAgentSession_await sessionId source hint m)"

text \<open>The outer \<^verbatim>\<open>finally\<close> (lines 531 to 533); the invocation is over.\<close>

definition run_exit :: "nat \<Rightarrow> manager \<Rightarrow> manager" where
  "run_exit t m = releaseAgentSlot (m\<lparr>runs := (runs m)(t := None)\<rparr>)"

text \<open>The inner \<^verbatim>\<open>finally\<close> (lines 520 to 530), then the outer one.\<close>

definition run_finally :: "nat \<Rightarrow> manager \<Rightarrow> manager" where
  "run_finally t m =
    (case runs m t of
       None \<Rightarrow> m
     | Some r \<Rightarrow>
         let sessionId = r_session r;
             m1 = m\<lparr>activeStreams := (activeStreams m)(sessionId := None)\<rparr>;
             m2 = (case sessions m1 sessionId of
                     None \<Rightarrow> m1
                   | Some latest \<Rightarrow>
                       if r_cancelled r then m1
                       else if status latest = Running
                       then (case updateStatus sessionId Awaiting_hint m1 of
                               Inl _ \<Rightarrow> m1
                             | Inr m' \<Rightarrow> broadcastSnapshot sessionId m')
                       else broadcastSnapshot sessionId m1)
         in run_exit t m2)"

text \<open>The \<^verbatim>\<open>catch\<close> (lines 505 to 519). The message is \<open>None\<close> when what was thrown is
  not an \<^verbatim>\<open>Error\<close>.\<close>

definition run_catch :: "nat \<Rightarrow> string option \<Rightarrow> manager \<Rightarrow> manager" where
  "run_catch t err m =
    (case runs m t of
       None \<Rightarrow> m
     | Some r \<Rightarrow>
         let sessionId = r_session r;
             msg = (case err of Some e \<Rightarrow> e | None \<Rightarrow> ''Unexpected Codex streaming error.'')
         in if r_cancelled r \<or> sessions m sessionId = None then run_finally t m
            else (case publishEvent sessionId
                         \<lparr>level = Error_level, message = msg, details = None\<rparr> m of
                    Inl _ \<Rightarrow> run_finally t m
                  | Inr m1 \<Rightarrow>
                      (case updateStatus sessionId Awaiting_hint m1 of
                         Inl _ \<Rightarrow> run_finally t m1
                       | Inr m2 \<Rightarrow>
                           run_finally t
                             (updateSessionMetadata sessionId (\<lambda>state. state\<lparr>error := Some msg\<rparr>) m2))))"

text \<open>Lines 452 to 480: from the prompt to the \<^verbatim>\<open>await\<close> of \<^verbatim>\<open>runStreamed\<close>. A throw
  leaves through the outer \<^verbatim>\<open>finally\<close>, with what was written before it.\<close>

definition run_begin :: "nat \<Rightarrow> string \<Rightarrow> manager \<Rightarrow> manager" where
  "run_begin t prompt m =
    (case runs m t of
       None \<Rightarrow> m
     | Some r \<Rightarrow>
         let sessionId = r_session r
         in case updateStatus sessionId Running m of
              Inl _ \<Rightarrow> run_exit t m
            | Inr m1 \<Rightarrow>
                let m2 = updateSessionMetadata sessionId
                           (\<lambda>state. if r_source r = Hint then state\<lparr>error := None, result := None\<rparr>
                                     else state\<lparr>error := None\<rparr>) m1
                in case publishEvent sessionId
                          \<lparr>level = Info,
                           message = (if r_source r = Hint then ''Processing operator hint with Codex agent.''
                                      else ''Starting Codex agent run.''),
                           details = Some (JObj [(''source'',
                             JStr (if r_source r = Hint then ''hint'' else ''initial''))])\<rparr> m2 of
                     Inl _ \<Rightarrow> run_exit t m2
                   | Inr m3 \<Rightarrow>
                       (case sessions m3 sessionId of
                          None \<Rightarrow> run_exit t m3
                        | Some currentSession \<Rightarrow>
                            set_pc t
                              (AwaitStream
                                 (case threadId currentSession of
                                    None \<Rightarrow> StartThread prompt
                                  | Some th \<Rightarrow> if th \<noteq> [] then ResumeThread th prompt
                                              else StartThread prompt))
                              m3))"

text \<open>Lines 436 to 450: the run holds its slot. The hint prompt is built at once;
  \<^verbatim>\<open>reqPrompt\<close> is awaited.\<close>

definition run_admitted :: "nat \<Rightarrow> manager \<Rightarrow> manager" where
  "run_admitted t m =
    (case runs m t of
       None \<Rightarrow> m
     | Some r \<Rightarrow>
         (case sessions m (r_session r) of
            None \<Rightarrow> run_exit t m
          | Some currentSession \<Rightarrow>
              if r_source r = Hint \<and> nonEmpty (r_hint r)
              then run_begin t (buildHintPrompt currentSession (case r_hint r of Some h \<Rightarrow> h | None \<Rightarrow> [])) m
              else set_pc t AwaitPrompt m))"

text \<open>Lines 482 to 498: the controller is stored and the first item requested.\<close>

definition run_streamOpened :: "nat \<Rightarrow> manager \<Rightarrow> manager" where
  "run_streamOpened t m =
    (case runs m t of
       None \<Rightarrow> m
     | Some r \<Rightarrow> set_pc t Pumping (m\<lparr>activeStreams := (activeStreams m)(r_session r \<mapsto> t)\<rparr>))"

text \<open>Lines 498 to 504: one item of the stream. A throw in the body is caught by the
  \<^verbatim>\<open>catch\<close> of line 505; a handler throws only for a session that is missing, before it
  has written anything (\<open>handleThreadEvent_throws\<close>), so the \<^verbatim>\<open>catch\<close> starts from the
  state before the item.\<close>

definition run_item :: "nat \<Rightarrow> ThreadEvent \<Rightarrow> manager \<Rightarrow> manager" where
  "run_item t event m =
    (case runs m t of
       None \<Rightarrow> m
     | Some r \<Rightarrow>
         if sessions m (r_session r) = None
         then m\<lparr>runs := (runs m)(t \<mapsto> r\<lparr>r_cancelled := True, r_pc := Breaking\<rparr>)\<rparr>
         else (case handleThreadEvent (r_session r) event m of
                 Inr m' \<Rightarrow> m'
               | Inl e \<Rightarrow> run_catch t (case e of JsError msg \<Rightarrow> Some msg
                                         | SessionManagerError msg _ _ \<Rightarrow> Some msg) m))"


section \<open>The public operations\<close>

definition createSession :: "ProblemMetadata \<Rightarrow> string \<Rightarrow> string option \<Rightarrow> manager \<Rightarrow> nat \<times> manager" where
  "createSession prob wsPath artPath m =
    (let sessionId = uuidCounter m;
         session = \<lparr>id_s = sessionId, createdAt = clock m, updatedAt = clock m, status = Pending,
                    problem = prob, workspacePath = wsPath, artifactPath = artPath,
                    threadId = None, result = None, events = [], error = None\<rparr>;
         m1 = broadcastSnapshot sessionId
                (m\<lparr>sessions := (sessions m)(sessionId \<mapsto> session), uuidCounter := uuidCounter m + 1\<rparr>)
     in (sessionId,
         case publishEvent sessionId
                \<lparr>level = Info, message = ''Session created and workspace prepared.'',
                 details = Some (JObj [(''workspacePath'', JStr wsPath),
                                       (''artifactPath'', case artPath of None \<Rightarrow> JNull | Some a \<Rightarrow> JStr a)])\<rparr> m1
         of Inl _ \<Rightarrow> m1
          | Inr m2 \<Rightarrow> runAgentSession sessionId Initial None m2))"

definition submitHint :: "nat \<Rightarrow> string \<Rightarrow> manager \<Rightarrow> exn option \<times> manager" where
  "submitHint sessionId hint m =
    (case sessions m sessionId of
       None \<Rightarrow> (Some (SessionManagerError ''Session not found.'' 404 ''SESSION_NOT_FOUND''), m)
     | Some session \<Rightarrow>
         if \<not> nonEmpty (threadId session)
         then (Some (SessionManagerError
                 ''Session has not established a Codex thread yet. Wait for the initial run to finish.''
                 409 ''SESSION_THREAD_UNAVAILABLE''), m)
         else if activeStreams m sessionId \<noteq> None
         then (Some (SessionManagerError
                 ''Session is already processing. Try again after the current run completes.''
                 409 ''SESSION_BUSY''), m)
         else
           let normalizedHint = trim hint
           in case publishEvent sessionId
                     \<lparr>level = Task, message = ''Operator hint received.'',
                      details = Some (JObj [(''hint'', JStr (truncate_str normalizedHint 400))])\<rparr> m of
                Inl e \<Rightarrow> (Some e, m)
              | Inr m1 \<Rightarrow>
                  (case updateStatus sessionId Pending m1 of
                     Inl e \<Rightarrow> (Some e, m1)
                   | Inr m2 \<Rightarrow>
                       (None, runAgentSession sessionId Hint (Some normalizedHint)
                                (updateSessionMetadata sessionId (\<lambda>state. state\<lparr>result := None\<rparr>) m2))))"

text \<open>\<^verbatim>\<open>controller.cancel()\<close> of run \<open>t\<close>: its \<^verbatim>\<open>cancelled\<close> flag is set and the stream's
  \<^verbatim>\<open>return\<close> requested; the stream then ends when the engine lets it.\<close>

definition cancelRun :: "nat \<Rightarrow> manager \<Rightarrow> manager" where
  "cancelRun t m =
    (case runs m t of
       None \<Rightarrow> m
     | Some r \<Rightarrow> m\<lparr>runs := (runs m)(t \<mapsto> r\<lparr>r_cancelled := True\<rparr>)\<rparr>)"

text \<open>Lines 270 to 289 of \<^verbatim>\<open>removeSession\<close>: what runs with no suspension.\<close>

definition removeSession_tail :: "nat \<Rightarrow> manager \<Rightarrow> bool \<times> manager" where
  "removeSession_tail sessionId m =
    (case sessions m sessionId of
       None \<Rightarrow> (False, m)
     | Some session \<Rightarrow>
         let m1 = broadcastSnapshot sessionId
                    (m\<lparr>sessions := (sessions m)(sessionId \<mapsto>
                         session\<lparr>status := Cancelled, updatedAt := clock m\<rparr>)\<rparr>);
             m2 = m1\<lparr>sessions := (sessions m1)(sessionId := None)\<rparr>
         in case clients m2 sessionId of
              None \<Rightarrow> (True, m2)
            | Some sockets \<Rightarrow>
                (True, m2\<lparr>closes := closes m2 @ map (\<lambda>s. (s, 1000, ''Session cancelled'')) sockets,
                          readyState := (\<lambda>s. if s \<in> set sockets \<and> readyState m2 s \<noteq> CLOSED
                                              then CLOSING else readyState m2 s),
                          clients := (clients m2)(sessionId := None)\<rparr>))"

text \<open>
  \<^verbatim>\<open>removeSession\<close> from its call: with a stored controller it cancels the run and
  suspends (the result is \<open>None\<close> and the invocation is kept in \<open>removals\<close>); with none
  it runs to its end.
\<close>

definition removeSession :: "nat \<Rightarrow> manager \<Rightarrow> bool option \<times> manager" where
  "removeSession sessionId m =
    (case activeStreams m sessionId of
       Some t \<Rightarrow>
         (None, (cancelRun t m)\<lparr>removals := (removals m)(nextTask m \<mapsto> sessionId),
                                nextTask := nextTask m + 1\<rparr>)
     | None \<Rightarrow>
         (case removeSession_tail sessionId m of (b, m') \<Rightarrow> (Some b, m')))"

text \<open>The \<^verbatim>\<open>await controller.cancel()\<close> has settled (line 267 on).\<close>

definition removeSession_resumed :: "nat \<Rightarrow> manager \<Rightarrow> bool option \<times> manager" where
  "removeSession_resumed k m =
    (case removals m k of
       None \<Rightarrow> (None, m)
     | Some sessionId \<Rightarrow>
         (case removeSession_tail sessionId
                 (m\<lparr>activeStreams := (activeStreams m)(sessionId := None),
                    removals := (removals m)(k := None)\<rparr>) of
            (b, m') \<Rightarrow> (Some b, m')))"

definition registerClient :: "nat \<Rightarrow> nat \<Rightarrow> manager \<Rightarrow> manager" where
  "registerClient sessionId socket m =
    (case sessions m sessionId of
       None \<Rightarrow>
         m\<lparr>sent := sent m @ [(socket, ErrorMsg ''Session not found'')],
           closes := closes m @ [(socket, 1008, ''Session not found'')],
           readyState := (readyState m)(socket := CLOSING)\<rparr>
     | Some session \<Rightarrow>
         let existing = (case clients m sessionId of None \<Rightarrow> [] | Some cs \<Rightarrow> cs)
         in m\<lparr>clients := (clients m)(sessionId \<mapsto>
                 (if socket \<in> set existing then existing else existing @ [socket])),
               sent := sent m @ [(socket, Snapshot session)]\<rparr>)"


section \<open>The manager as a transition system\<close>

text \<open>
  One action is one stretch of code that runs without suspension: a call of a public
  operation up to its first \<^verbatim>\<open>await\<close>, or the resumption of a suspended invocation. The
  engine, the prompt collaborator and the clock are the environment: they choose which
  suspended invocation goes on next and what it is handed. The close and error callbacks
  a socket gets from the transport are not among the actions; \<open>readyState\<close> changes only
  by what the manager does to a socket.
\<close>

datatype action =
    CreateSession ProblemMetadata string "string option"
  | SubmitHint nat string
  | RemoveSession nat
  | RemoveResumed nat
  | RegisterClient nat nat
  | Resume nat
  | PromptReady nat string
  | StreamOpened nat
  | StreamRejected nat
  | StreamItem nat ThreadEvent
  | StreamDone nat
  | StreamError nat "string option"
  | Tick

definition pc_of :: "manager \<Rightarrow> nat \<Rightarrow> run_pc option" where
  "pc_of m t = map_option r_pc (runs m t)"

definition is_AwaitStream :: "run_pc option \<Rightarrow> bool" where
  "is_AwaitStream p = (case p of Some (AwaitStream _) \<Rightarrow> True | _ \<Rightarrow> False)"

definition step :: "action \<Rightarrow> manager \<Rightarrow> manager" where
  "step a m =
    (case a of
       CreateSession prob wsPath artPath \<Rightarrow> snd (createSession prob wsPath artPath m)
     | SubmitHint sessionId hint \<Rightarrow> snd (submitHint sessionId hint m)
     | RemoveSession sessionId \<Rightarrow> snd (removeSession sessionId m)
     | RemoveResumed k \<Rightarrow> snd (removeSession_resumed k m)
     | RegisterClient sessionId socket \<Rightarrow> registerClient sessionId socket m
     | Resume t \<Rightarrow>
         (if pc_of m t = Some Woken then acquireAgentSlot_resumed t m
          else if pc_of m t = Some Acquired then run_admitted t m
          else if pc_of m t = Some Breaking then run_finally t m
          else m)
     | PromptReady t prompt \<Rightarrow> (if pc_of m t = Some AwaitPrompt then run_begin t prompt m else m)
     | StreamOpened t \<Rightarrow> (if is_AwaitStream (pc_of m t) then run_streamOpened t m else m)
     | StreamRejected t \<Rightarrow> (if is_AwaitStream (pc_of m t) then run_exit t m else m)
     | StreamItem t event \<Rightarrow> (if pc_of m t = Some Pumping then run_item t event m else m)
     | StreamDone t \<Rightarrow> (if pc_of m t = Some Pumping then run_finally t m else m)
     | StreamError t err \<Rightarrow> (if pc_of m t = Some Pumping then run_catch t err m else m)
     | Tick \<Rightarrow> m\<lparr>clock := clock m + 1\<rparr>)"

definition exec :: "action list \<Rightarrow> manager \<Rightarrow> manager" where
  "exec as m = foldl (\<lambda>s a. step a s) m as"


section \<open>Concrete runs of the manager\<close>

definition prob0 :: ProblemMetadata where
  "prob0 = \<lparr>category = ''pwn'', title = ''Heap playground'', description = ''Simple heap challenge''\<rparr>"

definition solved_output :: json where
  "solved_output =
    JObj [(''inferenceStatus'', JStr ''solved''), (''summary'', JStr ''Flag captured.''),
          (''flag'', JStr ''FLAG{test}''), (''solveCode'', JStr ''print(1)''),
          (''writeUp'', JStr ''Overflow the chunk.''), (''solutionFiles'', JNull),
          (''nextSteps'', JNull)]"

text \<open>An output that passes \<open>isAgentStructuredOutput\<close> and has one property more.\<close>

definition path_output :: json where
  "path_output =
    JObj [(''inferenceStatus'', JStr ''solved''), (''summary'', JStr ''Flag captured.''),
          (''flag'', JStr ''FLAG{test}''), (''solveCode'', JNull), (''writeUp'', JNull),
          (''solutionFiles'', JNull), (''nextSteps'', JNull),
          (''solveCodePath'', JStr ''/tmp/solve.py'')]"

text \<open>One session, created and run until its stream is being read (run 0, session 0).\<close>

definition streaming_trace :: "action list" where
  "streaming_trace =
    [CreateSession prob0 ''/w/heap-playground'' None, Resume 0, PromptReady 0 ''prompt'',
     StreamOpened 0]"

text \<open>The session's first run establishes the thread and ends with no structured
  result: the session waits for a hint.\<close>

definition idle_trace :: "action list" where
  "idle_trace = streaming_trace @ [StreamItem 0 (ThreadStarted ''thread_A''), StreamDone 0]"

text \<open>The session's first run reports \<^verbatim>\<open>solved\<close>: the session is completed.\<close>

definition completed_trace :: "action list" where
  "completed_trace =
    streaming_trace @
    [StreamItem 0 (ThreadStarted ''thread_A''),
     StreamItem 0 (ItemCompleted (AgentMessageItem ''{...}'' (Some solved_output))),
     StreamDone 0]"

text \<open>
  Two slots. Session 0 is idle with its thread; two more sessions (runs 1 and 2) hold
  both slots and stream; two hints for session 0 follow one another; then the first
  stream ends and hint run 3 goes on, the second stream ends and hint run 4 goes on.
\<close>

definition two_hints_queued_trace :: "action list" where
  "two_hints_queued_trace =
    idle_trace @
    [CreateSession prob0 ''/w/b'' None, CreateSession prob0 ''/w/c'' None,
     Resume 1, PromptReady 1 ''prompt'', StreamOpened 1,
     Resume 2, PromptReady 2 ''prompt'', StreamOpened 2,
     SubmitHint 0 ''first hint'', SubmitHint 0 ''second hint'']"

definition two_hints_running_trace :: "action list" where
  "two_hints_running_trace =
    two_hints_queued_trace @
    [StreamDone 1, Resume 3, Resume 3, StreamOpened 3,
     StreamDone 2, Resume 4, Resume 4, StreamOpened 4]"



text \<open>The idle session gets a hint; the resumed run's stream reports another thread.\<close>

definition rethread_trace :: "action list" where
  "rethread_trace =
    idle_trace @
    [SubmitHint 0 ''look at the parser'', Resume 1, StreamOpened 1,
     StreamItem 1 (ThreadStarted ''thread_B'')]"

definition lastEvent :: "manager \<Rightarrow> nat \<Rightarrow> SessionEvent option" where
  "lastEvent m sessionId =
    (case sessions m sessionId of
       None \<Rightarrow> None
     | Some s \<Rightarrow> if events s = [] then None else Some (last (events s)))"

definition openClients :: "manager \<Rightarrow> nat \<Rightarrow> nat list" where
  "openClients m sessionId =
    filter (\<lambda>s. readyState m s = OPEN) (case clients m sessionId of None \<Rightarrow> [] | Some cs \<Rightarrow> cs)"

definition liveClients :: "manager \<Rightarrow> nat \<Rightarrow> nat list" where
  "liveClients m sessionId =
    filter (\<lambda>s. readyState m s \<noteq> CLOSING \<and> readyState m s \<noteq> CLOSED)
      (case clients m sessionId of None \<Rightarrow> [] | Some cs \<Rightarrow> cs)"


definition demo_run :: run where
  "demo_run =
    \<lparr>r_session = 0, r_source = Initial, r_hint = None, r_pc = Pumping, r_cancelled = False\<rparr>"

text \<open>A manager written out in full: session 0 is running with its thread, run 0 reads
  its stream and holds a slot, sockets 7 (open) and 8 (closed) are subscribed.\<close>

definition demo_session :: Session where
  "demo_session =
    \<lparr>id_s = 0, createdAt = 0, updatedAt = 3, status = Running, problem = prob0,
     workspacePath = ''/w/heap-playground'', artifactPath = None,
     threadId = Some ''thread_A'', result = None, events = [], error = None\<rparr>"

definition demo_manager :: manager where
  "demo_manager =
    \<lparr>sessions = [0 \<mapsto> demo_session], clients = [0 \<mapsto> [7, 8]], activeStreams = [0 \<mapsto> 0],
     maxConcurrentAgents = 4, activeAgentCount = 1, slotQueue = [],
     runs = [0 \<mapsto> demo_run],
     removals = Map.empty, nextTask = 1, clock = 5, uuidCounter = 9,
     readyState = (\<lambda>_. OPEN)(8 := CLOSED), sent = [], closes = []\<rparr>"

text \<open>The streaming session reports an output that carries \<^verbatim>\<open>solveCodePath\<close>.\<close>

definition path_trace :: "action list" where
  "path_trace =
    streaming_trace @
    [StreamItem 0 (ItemCompleted (AgentMessageItem ''{...}'' (Some path_output)))]"

text \<open>The same session with no run: it waits for a hint.\<close>

definition waiting_manager :: manager where
  "waiting_manager =
    \<lparr>sessions = [0 \<mapsto> demo_session\<lparr>status := Awaiting_hint\<rparr>], clients = [0 \<mapsto> [7, 8]],
     activeStreams = Map.empty, maxConcurrentAgents = 4, activeAgentCount = 0, slotQueue = [],
     runs = Map.empty, removals = Map.empty, nextTask = 1, clock = 5, uuidCounter = 9,
     readyState = (\<lambda>_. OPEN)(8 := CLOSED), sent = [], closes = []\<rparr>"

text \<open>What the theorems about concrete runs read off a state.\<close>

definition sessionView ::
  "manager \<Rightarrow> nat \<Rightarrow> (SessionStatus \<times> string option \<times> json option \<times> nat) option \<times> nat option" where
  "sessionView m sessionId =
    (map_option (\<lambda>s. (status s, threadId s, result s, length (events s))) (sessions m sessionId),
     activeStreams m sessionId)"

definition slotView :: "manager \<Rightarrow> nat list \<Rightarrow> int \<times> int \<times> nat list \<times> (nat \<times> run_pc) option list" where
  "slotView m ts =
    (activeAgentCount m, maxConcurrentAgents m, slotQueue m,
     map (\<lambda>t. map_option (\<lambda>r. (r_session r, r_pc r)) (runs m t)) ts)"

text \<open>Every session of the second state is a session of the first, with the same thread.\<close>

definition keeps :: "manager \<Rightarrow> manager \<Rightarrow> bool" where
  "keeps m m' =
    (\<forall>sid s'. sessions m' sid = Some s' \<longrightarrow> (\<exists>s. sessions m sid = Some s \<and> threadId s' = threadId s))"



section \<open>Properties\<close>

lemma clampConcurrency_ge1: "1 \<le> clampConcurrency p"
  by (simp add: clampConcurrency_def split: option.split)

subsection \<open>What the primitives change\<close>

lemma broadcast_frame:
  "sessions (broadcast sid p m) = sessions m"
  "activeStreams (broadcast sid p m) = activeStreams m"
  "maxConcurrentAgents (broadcast sid p m) = maxConcurrentAgents m"
  "activeAgentCount (broadcast sid p m) = activeAgentCount m"
  "slotQueue (broadcast sid p m) = slotQueue m"
  "runs (broadcast sid p m) = runs m"
  "removals (broadcast sid p m) = removals m"
  "nextTask (broadcast sid p m) = nextTask m"
  "clock (broadcast sid p m) = clock m"
  "uuidCounter (broadcast sid p m) = uuidCounter m"
  "readyState (broadcast sid p m) = readyState m"
  "closes (broadcast sid p m) = closes m"
  by (simp_all add: broadcast_def split: option.split)

lemma broadcast_sent:
  "sent (broadcast sid p m) = sent m @ map (\<lambda>c. (c, p)) (openClients m sid)"
  by (simp add: broadcast_def openClients_def split: option.split)

lemma broadcast_clients:
  "clients (broadcast sid p m) sid' =
     (if sid' = sid \<and> clients m sid \<noteq> None then Some (liveClients m sid) else clients m sid')"
  by (auto simp add: broadcast_def liveClients_def split: option.split)

lemma openClients_broadcast:
  "openClients (broadcast sid p m) sid' = openClients m sid'"
  by (auto simp add: broadcast_def openClients_def split: option.split intro: filter_cong)

lemma liveClients_broadcast:
  "liveClients (broadcast sid p m) sid' = liveClients m sid'"
  by (auto simp add: broadcast_def liveClients_def split: option.split intro: filter_cong)

lemma broadcastSnapshot_frame:
  "sessions (broadcastSnapshot sid m) = sessions m"
  "activeStreams (broadcastSnapshot sid m) = activeStreams m"
  "maxConcurrentAgents (broadcastSnapshot sid m) = maxConcurrentAgents m"
  "activeAgentCount (broadcastSnapshot sid m) = activeAgentCount m"
  "slotQueue (broadcastSnapshot sid m) = slotQueue m"
  "runs (broadcastSnapshot sid m) = runs m"
  "removals (broadcastSnapshot sid m) = removals m"
  "nextTask (broadcastSnapshot sid m) = nextTask m"
  "clock (broadcastSnapshot sid m) = clock m"
  "uuidCounter (broadcastSnapshot sid m) = uuidCounter m"
  "readyState (broadcastSnapshot sid m) = readyState m"
  "closes (broadcastSnapshot sid m) = closes m"
  by (simp_all add: broadcastSnapshot_def broadcast_frame split: option.split)

lemma publishEvent_Some:
  "sessions m sid = Some s \<Longrightarrow>
   publishEvent sid p m =
     Inr (broadcast sid (EventMsg (mkEvent p (uuidCounter m) (clock m)))
           (m\<lparr>sessions := (sessions m)(sid \<mapsto>
                s\<lparr>updatedAt := clock m, events := events s @ [mkEvent p (uuidCounter m) (clock m)]\<rparr>),
              uuidCounter := uuidCounter m + 1\<rparr>))"
  by (simp add: publishEvent_def mkEvent_def Let_def)

lemma publishEvent_None:
  "sessions m sid = None \<Longrightarrow>
   publishEvent sid p m = Inl (JsError ''Cannot publish event: session not found.'')"
  by (simp add: publishEvent_def)

lemma updateStatus_Some:
  "sessions m sid = Some s \<Longrightarrow>
   updateStatus sid st m =
     Inr (broadcast sid (StatusMsg st (clock m))
           (m\<lparr>sessions := (sessions m)(sid \<mapsto> s\<lparr>status := st, updatedAt := clock m\<rparr>)\<rparr>))"
  by (simp add: updateStatus_def)

lemma updateStatus_None:
  "sessions m sid = None \<Longrightarrow>
   updateStatus sid st m = Inl (JsError ''Cannot update status: session not found.'')"
  by (simp add: updateStatus_def)

lemma updateSessionMetadata_Some:
  "sessions m sid = Some s \<Longrightarrow>
   updateSessionMetadata sid f m = m\<lparr>sessions := (sessions m)(sid \<mapsto> (f s)\<lparr>updatedAt := clock m\<rparr>)\<rparr>"
  by (simp add: updateSessionMetadata_def)

lemma updateSessionMetadata_None:
  "sessions m sid = None \<Longrightarrow> updateSessionMetadata sid f m = m"
  by (simp add: updateSessionMetadata_def)

lemmas prim_Some = publishEvent_Some updateStatus_Some updateSessionMetadata_Some
lemmas prim_None = publishEvent_None updateStatus_None updateSessionMetadata_None


lemma set_pc_frame:
  "sessions (set_pc t pc m) = sessions m"
  "clients (set_pc t pc m) = clients m"
  "activeStreams (set_pc t pc m) = activeStreams m"
  "maxConcurrentAgents (set_pc t pc m) = maxConcurrentAgents m"
  "activeAgentCount (set_pc t pc m) = activeAgentCount m"
  "slotQueue (set_pc t pc m) = slotQueue m"
  "removals (set_pc t pc m) = removals m"
  "nextTask (set_pc t pc m) = nextTask m"
  "clock (set_pc t pc m) = clock m"
  "uuidCounter (set_pc t pc m) = uuidCounter m"
  "readyState (set_pc t pc m) = readyState m"
  "sent (set_pc t pc m) = sent m"
  "closes (set_pc t pc m) = closes m"
  by (simp_all add: set_pc_def split: option.split)

lemma set_pc_runs:
  "runs (set_pc t pc m) t' =
     (if t' = t then map_option (\<lambda>r. r\<lparr>r_pc := pc\<rparr>) (runs m t) else runs m t')"
  by (simp add: set_pc_def split: option.split)

lemma releaseAgentSlot_frame:
  "sessions (releaseAgentSlot m) = sessions m"
  "clients (releaseAgentSlot m) = clients m"
  "activeStreams (releaseAgentSlot m) = activeStreams m"
  "maxConcurrentAgents (releaseAgentSlot m) = maxConcurrentAgents m"
  "removals (releaseAgentSlot m) = removals m"
  "nextTask (releaseAgentSlot m) = nextTask m"
  "clock (releaseAgentSlot m) = clock m"
  "uuidCounter (releaseAgentSlot m) = uuidCounter m"
  "readyState (releaseAgentSlot m) = readyState m"
  "sent (releaseAgentSlot m) = sent m"
  "closes (releaseAgentSlot m) = closes m"
  by (simp_all add: releaseAgentSlot_def Let_def set_pc_frame split: list.split)

lemma releaseAgentSlot_count:
  "activeAgentCount (releaseAgentSlot m) = max 0 (activeAgentCount m - 1)"
  by (simp add: releaseAgentSlot_def Let_def set_pc_frame split: list.split)

lemma releaseAgentSlot_queue:
  "slotQueue (releaseAgentSlot m) = tl (slotQueue m)"
  by (simp add: releaseAgentSlot_def Let_def set_pc_frame split: list.split)

lemma releaseAgentSlot_runs:
  "runs (releaseAgentSlot m) t =
     (case slotQueue m of
        [] \<Rightarrow> runs m t
      | next # rest \<Rightarrow> if t = next then map_option (\<lambda>r. r\<lparr>r_pc := Woken\<rparr>) (runs m t) else runs m t)"
  by (simp add: releaseAgentSlot_def Let_def set_pc_runs split: list.split)

lemma run_exit_frame:
  "sessions (run_exit t m) = sessions m"
  "clients (run_exit t m) = clients m"
  "activeStreams (run_exit t m) = activeStreams m"
  "maxConcurrentAgents (run_exit t m) = maxConcurrentAgents m"
  "sent (run_exit t m) = sent m"
  "closes (run_exit t m) = closes m"
  "activeAgentCount (run_exit t m) = max 0 (activeAgentCount m - 1)"
  by (simp_all add: run_exit_def releaseAgentSlot_frame releaseAgentSlot_count)

subsection \<open>Sequencing with errors\<close>

lemma andThen_Inr: "andThen r f = Inr y \<Longrightarrow> \<exists>x. r = Inr x \<and> f x = Inr y"
  by (cases r) (simp_all add: andThen_def)

lemma run_exit_runs_self: "runs (run_exit t m) t = None"
  by (simp add: run_exit_def releaseAgentSlot_runs split: list.split)

subsection \<open>Sessions and threads that stay\<close>

lemma keeps_refl: "keeps m m"
  by (simp add: keeps_def)

lemma keeps_trans: "keeps m m1 \<Longrightarrow> keeps m1 m2 \<Longrightarrow> keeps m m2"
  unfolding keeps_def by fastforce

lemma keeps_same: "sessions m' = sessions m \<Longrightarrow> keeps m m'"
  by (simp add: keeps_def)

lemma keeps_publishEvent: "publishEvent sid p m = Inr m' \<Longrightarrow> keeps m m'"
  by (auto simp add: publishEvent_def Let_def keeps_def broadcast_frame split: option.splits if_splits)

lemma keeps_updateStatus: "updateStatus sid st m = Inr m' \<Longrightarrow> keeps m m'"
  by (auto simp add: updateStatus_def keeps_def broadcast_frame split: option.splits if_splits)

lemma keeps_meta: "(\<And>s. threadId (f s) = threadId s) \<Longrightarrow> keeps m (updateSessionMetadata sid f m)"
  by (auto simp add: updateSessionMetadata_def keeps_def split: option.splits if_splits)

lemma keeps_then_status:
  assumes "andThen (publishEvent sid p m) (updateStatus sid st) = Inr m'"
  shows "keeps m m'"
proof -
  from andThen_Inr[OF assms] obtain x where "publishEvent sid p m = Inr x" "updateStatus sid st x = Inr m'"
    by blast
  then show ?thesis using keeps_publishEvent keeps_updateStatus keeps_trans by blast
qed

lemma keeps_handleAgentMessage:
  assumes "handleAgentMessage sid txt parsed m = Inr m'"
  shows "keeps m m'"
proof (cases "parseAgentStructuredOutput parsed")
  case None
  with assms show ?thesis by (simp add: handleAgentMessage_def keeps_publishEvent)
next
  case (Some v)
  let ?m0 = "updateSessionMetadata sid (\<lambda>session. session\<lparr>result := Some v, error := None\<rparr>) m"
  from assms Some obtain m1 where
    p: "publishEvent sid
          \<lparr>level = (if inferenceStatus v = ''solved'' then Info
                    else if inferenceStatus v = ''failed'' then Error_level else Warning),
           message = ''Agent reported status: '' @ inferenceStatus v,
           details = Some (detailPayload v)\<rparr> ?m0 = Inr m1"
    and u: "updateStatus sid (if inferenceStatus v = ''solved'' then Completed else Awaiting_hint)
              (broadcastSnapshot sid (broadcast sid (AgentResult v) m1)) = Inr m'"
    by (auto simp add: handleAgentMessage_def Let_def dest!: andThen_Inr split: if_splits)
  have k0: "keeps m ?m0" by (rule keeps_meta) simp
  have k1: "keeps ?m0 m1" using p by (rule keeps_publishEvent)
  have k2: "keeps m1 (broadcastSnapshot sid (broadcast sid (AgentResult v) m1))"
    by (rule keeps_same) (simp add: broadcastSnapshot_frame broadcast_frame)
  have k3: "keeps (broadcastSnapshot sid (broadcast sid (AgentResult v) m1)) m'"
    using u by (rule keeps_updateStatus)
  from k0 k1 k2 k3 show ?thesis by (blast intro: keeps_trans)
qed

lemma keeps_handleItemEvent:
  assumes "handleItemEvent sid item phase m = Inr m'"
  shows "keeps m m'"
  using assms
  by (cases item)
     (auto simp add: handleItemEvent_def handleCommandExecution_def handleMcpToolCall_def
        keeps_refl
        intro: keeps_publishEvent keeps_handleAgentMessage keeps_then_status
        split: if_splits)

lemma keeps_handleThreadEvent:
  assumes "handleThreadEvent sid ev m = Inr m'" and "\<forall>th. ev \<noteq> ThreadStarted th"
  shows "keeps m m'"
proof (cases ev)
  case (TurnFailed msg)
  with assms(1) obtain m1 m2 where
    a: "publishEvent sid \<lparr>level = Error_level, message = ''Agent turn failed.'',
                  details = Some (JObj [(''message'', JStr msg)])\<rparr> m = Inr m1"
    and u: "updateStatus sid Awaiting_hint m1 = Inr m2"
    and b: "m' = updateSessionMetadata sid (\<lambda>session. session\<lparr>error := Some msg\<rparr>) m2"
    by (auto simp add: handleThreadEvent_def dest!: andThen_Inr)
  have "keeps m2 m'" unfolding b by (rule keeps_meta) simp
  with keeps_publishEvent[OF a] keeps_updateStatus[OF u] show ?thesis by (blast intro: keeps_trans)
qed (use assms in \<open>auto simp add: handleThreadEvent_def keeps_refl
        intro: keeps_publishEvent keeps_handleItemEvent keeps_then_status\<close>)
lemma sessions_acquireAgentSlot_resumed: "sessions (acquireAgentSlot_resumed t m) = sessions m"
  by (simp add: acquireAgentSlot_resumed_def set_pc_frame)

lemma sessions_acquireAgentSlot: "sessions (acquireAgentSlot t m) = sessions m"
  by (simp add: acquireAgentSlot_def set_pc_frame)

lemma sessions_runAgentSession_await:
  "sessions (runAgentSession_await sid src hint m) = sessions m"
  by (simp add: runAgentSession_await_def Let_def sessions_acquireAgentSlot)

lemma keeps_runAgentSession: "keeps m (runAgentSession sid src hint m)"
proof -
  have a: "keeps x (runAgentSession_await sid src hint x)" for x
    by (rule keeps_same) (rule sessions_runAgentSession_await)
  have "keeps m (case publishEvent sid p m of Inl _ \<Rightarrow> m
                 | Inr m1 \<Rightarrow> runAgentSession_await sid src hint m1)" for p
    by (cases "publishEvent sid p m") (auto intro: keeps_refl keeps_trans keeps_publishEvent a)
  then show ?thesis
    by (auto simp add: runAgentSession_def keeps_refl a split: option.split)
qed

lemma keeps_run_exit: "keeps m (run_exit t m)"
  by (rule keeps_same) (simp add: run_exit_frame)

lemma keeps_run_finally: "keeps m (run_finally t m)"
proof (cases "runs m t")
  case None
  then show ?thesis by (simp add: run_finally_def keeps_refl)
next
  case (Some r)
  let ?m1 = "m\<lparr>activeStreams := (activeStreams m)(r_session r := None)\<rparr>"
  have k1: "keeps m ?m1" by (rule keeps_same) simp
  have k3: "keeps x (broadcastSnapshot sid x)" for x sid
    by (rule keeps_same) (simp add: broadcastSnapshot_frame)
  have k2: "keeps ?m1 (case updateStatus (r_session r) Awaiting_hint ?m1 of
                         Inl _ \<Rightarrow> ?m1 | Inr m' \<Rightarrow> broadcastSnapshot (r_session r) m')"
    by (cases "updateStatus (r_session r) Awaiting_hint ?m1")
       (auto intro: keeps_refl keeps_trans keeps_updateStatus k3)
  have "keeps ?m1 (case sessions ?m1 (r_session r) of
                     None \<Rightarrow> ?m1
                   | Some latest \<Rightarrow>
                       if r_cancelled r then ?m1
                       else if status latest = Running
                       then (case updateStatus (r_session r) Awaiting_hint ?m1 of
                               Inl _ \<Rightarrow> ?m1 | Inr m' \<Rightarrow> broadcastSnapshot (r_session r) m')
                       else broadcastSnapshot (r_session r) ?m1)"
    using k2 k3 by (auto split: option.split intro: keeps_refl)
  with k1 Some show ?thesis
    by (auto simp add: run_finally_def Let_def intro: keeps_trans keeps_run_exit)
qed

lemma keeps_run_catch: "keeps m (run_catch t err m)"
proof (cases "runs m t")
  case None
  then show ?thesis by (simp add: run_catch_def keeps_refl)
next
  case (Some r)
  let ?msg = "case err of Some e \<Rightarrow> e | None \<Rightarrow> ''Unexpected Codex streaming error.''"
  let ?p = "publishEvent (r_session r) \<lparr>level = Error_level, message = ?msg, details = None\<rparr> m"
  show ?thesis
  proof (cases ?p)
    case (Inl e)
    with Some show ?thesis by (simp add: run_catch_def Let_def keeps_run_finally)
  next
    case (Inr m1)
    note p = keeps_publishEvent[OF Inr]
    show ?thesis
    proof (cases "updateStatus (r_session r) Awaiting_hint m1")
      case (Inl e)
      from p keeps_run_finally[of m1 t] have "keeps m (run_finally t m1)" by (rule keeps_trans)
      with Some \<open>?p = Inr m1\<close> Inl show ?thesis by (simp add: run_catch_def Let_def keeps_run_finally)
    next
      case (Inr m2)
      let ?m3 = "updateSessionMetadata (r_session r) (\<lambda>state. state\<lparr>error := Some ?msg\<rparr>) m2"
      have "keeps m2 ?m3" by (rule keeps_meta) simp
      with p keeps_updateStatus[OF Inr] keeps_run_finally[of ?m3 t]
      have "keeps m (run_finally t ?m3)" by (blast intro: keeps_trans)
      with Some \<open>?p = Inr m1\<close> Inr show ?thesis by (simp add: run_catch_def Let_def keeps_run_finally)
    qed
  qed
qed

lemma keeps_set_pc: "keeps m (set_pc t pc m)"
  by (rule keeps_same) (simp add: set_pc_frame)

lemma keeps_run_begin: "keeps m (run_begin t prompt m)"
proof (cases "runs m t")
  case None
  then show ?thesis by (simp add: run_begin_def keeps_refl)
next
  case (Some r)
  let ?f = "\<lambda>state. if r_source r = Hint then state\<lparr>error := None, result := None\<rparr>
                     else state\<lparr>error := None\<rparr>"
  let ?p = "\<lparr>level = Info,
             message = (if r_source r = Hint then ''Processing operator hint with Codex agent.''
                        else ''Starting Codex agent run.''),
             details = Some (JObj [(''source'', JStr (if r_source r = Hint then ''hint'' else ''initial''))])\<rparr>"
  show ?thesis
  proof (cases "updateStatus (r_session r) Running m")
    case (Inl e)
    with Some show ?thesis by (simp add: run_begin_def Let_def keeps_run_exit)
  next
    case (Inr m1)
    let ?m2 = "updateSessionMetadata (r_session r) ?f m1"
    have "keeps m1 ?m2" by (rule keeps_meta) simp
    with keeps_updateStatus[OF Inr] have k2: "keeps m ?m2" by (rule keeps_trans)
    show ?thesis
    proof (cases "publishEvent (r_session r) ?p ?m2")
      case (Inl e)
      from k2 keeps_run_exit[of ?m2 t] have "keeps m (run_exit t ?m2)" by (rule keeps_trans)
      with Some \<open>updateStatus (r_session r) Running m = Inr m1\<close> Inl show ?thesis
        by (simp add: run_begin_def Let_def)
    next
      case (Inr m3)
      from k2 keeps_publishEvent[OF Inr] have k: "keeps m m3" by (rule keeps_trans)
      have "keeps m (run_exit t m3)" using k keeps_run_exit[of m3 t] by (rule keeps_trans)
      moreover have "keeps m (set_pc t pc m3)" for pc using k keeps_set_pc[of m3 t pc] by (rule keeps_trans)
      ultimately show ?thesis
        using Some \<open>updateStatus (r_session r) Running m = Inr m1\<close> Inr
        by (simp add: run_begin_def Let_def split: option.split)
    qed
  qed
qed

lemma keeps_run_admitted: "keeps m (run_admitted t m)"
  by (auto simp add: run_admitted_def keeps_refl keeps_run_exit keeps_run_begin keeps_set_pc
      split: option.split)

lemma keeps_run_streamOpened: "keeps m (run_streamOpened t m)"
  by (rule keeps_same) (simp add: run_streamOpened_def set_pc_frame split: option.split)

lemma keeps_run_item:
  assumes "\<forall>th. ev \<noteq> ThreadStarted th"
  shows "keeps m (run_item t ev m)"
proof (cases "runs m t")
  case None
  then show ?thesis by (simp add: run_item_def keeps_refl)
next
  case (Some r)
  show ?thesis
  proof (cases "handleThreadEvent (r_session r) ev m")
    case (Inl e)
    with Some show ?thesis by (auto simp add: run_item_def keeps_run_catch intro: keeps_same)
  next
    case (Inr m')
    with Some keeps_handleThreadEvent[OF Inr assms] show ?thesis
      by (auto simp add: run_item_def intro: keeps_same)
  qed
qed

lemma keeps_submitHint: "keeps m (snd (submitHint sid hint m))"
proof (cases "sessions m sid")
  case None
  then show ?thesis by (simp add: submitHint_def keeps_refl)
next
  case (Some s)
  let ?p = "publishEvent sid
              \<lparr>level = Task, message = ''Operator hint received.'',
               details = Some (JObj [(''hint'', JStr (truncate_str (trim hint) 400))])\<rparr> m"
  show ?thesis
  proof (cases ?p)
    case (Inl e)
    with Some show ?thesis by (simp add: submitHint_def Let_def keeps_refl)
  next
    case (Inr m1)
    note p = keeps_publishEvent[OF Inr]
    show ?thesis
    proof (cases "updateStatus sid Pending m1")
      case (Inl e)
      with Some \<open>?p = Inr m1\<close> p show ?thesis by (simp add: submitHint_def Let_def keeps_refl)
    next
      case (Inr m2)
      let ?m3 = "updateSessionMetadata sid (\<lambda>state. state\<lparr>result := None\<rparr>) m2"
      have "keeps m2 ?m3" by (rule keeps_meta) simp
      with p keeps_updateStatus[OF Inr] keeps_runAgentSession[of ?m3 sid Hint "Some (trim hint)"]
      have "keeps m (runAgentSession sid Hint (Some (trim hint)) ?m3)"
        by (blast intro: keeps_trans)
      with Some \<open>?p = Inr m1\<close> Inr show ?thesis by (simp add: submitHint_def Let_def keeps_refl)
    qed
  qed
qed

lemma keeps_removeSession_tail: "keeps m (snd (removeSession_tail sid m))"
  by (auto simp add: removeSession_tail_def Let_def keeps_def broadcastSnapshot_frame
      split: option.split if_splits)

lemma keeps_removeSession: "keeps m (snd (removeSession sid m))"
proof (cases "activeStreams m sid")
  case None
  with keeps_removeSession_tail[of m sid] show ?thesis
    by (cases "removeSession_tail sid m") (simp add: removeSession_def)
next
  case (Some t)
  then show ?thesis
    by (auto simp add: removeSession_def cancelRun_def split: option.split intro: keeps_same)
qed

lemma keeps_removeSession_resumed: "keeps m (snd (removeSession_resumed k m))"
proof (cases "removals m k")
  case None
  then show ?thesis by (simp add: removeSession_resumed_def keeps_refl)
next
  case (Some sid)
  let ?m0 = "m\<lparr>activeStreams := (activeStreams m)(sid := None), removals := (removals m)(k := None)\<rparr>"
  have "keeps m ?m0" by (rule keeps_same) simp
  with keeps_removeSession_tail[of ?m0 sid] have "keeps m (snd (removeSession_tail sid ?m0))"
    by (blast intro: keeps_trans)
  with Some show ?thesis
    by (cases "removeSession_tail sid ?m0") (simp add: removeSession_resumed_def)
qed

lemma keeps_registerClient: "keeps m (registerClient sid sock m)"
  by (rule keeps_same) (simp add: registerClient_def Let_def split: option.split)

lemma keeps_step:
  assumes "\<forall>p w ar. a \<noteq> CreateSession p w ar" and "\<forall>t th. a \<noteq> StreamItem t (ThreadStarted th)"
  shows "keeps m (step a m)"
proof (cases a)
  case (Resume t)
  have "keeps m (acquireAgentSlot_resumed t m)"
    by (rule keeps_same) (simp add: sessions_acquireAgentSlot_resumed)
  with Resume show ?thesis
    by (simp add: step_def keeps_refl keeps_run_admitted keeps_run_finally)
next
  case (StreamItem t ev)
  with assms(2) have "\<forall>th. ev \<noteq> ThreadStarted th" by simp
  with StreamItem show ?thesis by (simp add: step_def keeps_refl keeps_run_item)
next
  case Tick
  then show ?thesis by (auto simp add: step_def intro: keeps_same)
qed (use assms(1) in \<open>simp_all add: step_def keeps_refl keeps_submitHint keeps_removeSession
      keeps_removeSession_resumed keeps_registerClient keeps_run_begin keeps_run_streamOpened
      keeps_run_exit keeps_run_finally keeps_run_catch\<close>)

text \<open>A thread-established event writes the thread of its own session and adds none.\<close>

lemma thread_started_absent:
  assumes "sessions m sid = None"
  shows "sessions (run_item t (ThreadStarted th) m) sid = None"
proof (cases "runs m t")
  case None
  with assms show ?thesis by (simp add: run_item_def)
next
  case (Some r)
  show ?thesis
  proof (cases "sessions m (r_session r)")
    case None
    with Some assms show ?thesis by (simp add: run_item_def)
  next
    case (Some s)
    with \<open>runs m t = Some r\<close> assms show ?thesis
      by (auto simp add: run_item_def handleThreadEvent_def andThen_def prim_Some Let_def
          broadcast_frame broadcastSnapshot_frame)
  qed
qed

lemma absent_stays:
  assumes "sessions m sid = None" and "\<forall>p w ar. a \<noteq> CreateSession p w ar"
  shows "sessions (step a m) sid = None"
proof (cases "\<exists>t th. a = StreamItem t (ThreadStarted th)")
  case True
  then obtain t th where a: "a = StreamItem t (ThreadStarted th)" by blast
  with thread_started_absent[OF assms(1)] assms(1) show ?thesis by (simp add: step_def)
next
  case False
  then have "\<forall>t th. a \<noteq> StreamItem t (ThreadStarted th)" by blast
  from keeps_step[OF assms(2) this, of m] assms(1) show ?thesis
    by (cases "sessions (step a m) sid") (fastforce simp add: keeps_def)+
qed

subsection \<open>Runs and the slot count\<close>





























subsection \<open>Thread identifiers under the handlers\<close>

lemma handleItemEvent_threadId:
  assumes "sessions m sid = Some s"
  shows "\<exists>m' s'. handleItemEvent sid item phase m = Inr m' \<and> sessions m' sid = Some s'
            \<and> threadId s' = threadId s"
  using assms
  by (cases item)
     (auto simp add: handleItemEvent_def handleCommandExecution_def handleMcpToolCall_def
        handleAgentMessage_def andThen_def Let_def prim_Some broadcast_frame
        broadcastSnapshot_frame split: option.split)

lemma handleThreadEvent_threadId:
  assumes "sessions m sid = Some s"
  shows "\<exists>m' s'. handleThreadEvent sid ev m = Inr m' \<and> sessions m' sid = Some s'
            \<and> threadId s' = (case ev of ThreadStarted th \<Rightarrow> Some th | _ \<Rightarrow> threadId s)"
  using assms handleItemEvent_threadId[OF assms]
  by (cases ev)
     (auto simp add: handleThreadEvent_def andThen_def Let_def prim_Some broadcast_frame
        broadcastSnapshot_frame)

text \<open>A handler throws only for a session that is missing.\<close>

lemma handleThreadEvent_throws:
  assumes "handleThreadEvent sid ev m = Inl e"
  shows "sessions m sid = None"
proof (cases "sessions m sid")
  case None
  then show ?thesis .
next
  case (Some s)
  from handleThreadEvent_threadId[OF Some, of ev] assms show ?thesis by auto
qed

lemma acquireAgentSlot_frame:
  "sessions (acquireAgentSlot t m) = sessions m"
  "clients (acquireAgentSlot t m) = clients m"
  "activeStreams (acquireAgentSlot t m) = activeStreams m"
  "sent (acquireAgentSlot t m) = sent m"
  "closes (acquireAgentSlot t m) = closes m"
  by (simp_all add: acquireAgentSlot_def set_pc_frame)

text \<open>What \<^verbatim>\<open>runAgentSession\<close> does to the session it is called for.\<close>

lemma runAgentSession_session:
  assumes "sessions m sid = Some s"
  shows "\<exists>s'. sessions (runAgentSession sid src hint m) sid = Some s'
           \<and> status s' = status s \<and> result s' = result s \<and> threadId s' = threadId s
           \<and> error s' = error s \<and> length (events s) \<le> length (events s')"
  using assms
  by (auto simp add: runAgentSession_def prim_Some broadcast_frame sessions_runAgentSession_await)

lemma runAgentSession_busy:
  "activeStreams m sid \<noteq> None \<Longrightarrow> runAgentSession sid src hint m = m"
  by (simp add: runAgentSession_def)


subsection \<open>The end of a run and the removal of a session\<close>

lemma open_filter_broadcast:
  "readyState m' = rs \<Longrightarrow>
   filter (\<lambda>c. rs c = OPEN) (case clients (broadcast sid p m') sid' of None \<Rightarrow> [] | Some cs \<Rightarrow> cs) =
   filter (\<lambda>c. rs c = OPEN) (case clients m' sid' of None \<Rightarrow> [] | Some cs \<Rightarrow> cs)"
  by (auto simp add: broadcast_def split: option.split intro: filter_cong)

lemma run_finally_live:
  assumes "runs m t = Some r" and "\<not> r_cancelled r" and "sessions m (r_session r) = Some s"
  shows "\<exists>s'. sessions (run_finally t m) (r_session r) = Some s'
          \<and> status s' = (if status s = Running then Awaiting_hint else status s)
          \<and> (\<exists>pre. sent (run_finally t m) = sent m @ pre @ map (\<lambda>c. (c, Snapshot s')) (openClients m (r_session r)))
          \<and> runs (run_finally t m) t = None
          \<and> activeStreams (run_finally t m) (r_session r) = None"
proof (cases "status s = Running")
  case True
  let ?s' = "s\<lparr>status := Awaiting_hint, updatedAt := clock m\<rparr>"
  have "sessions (run_finally t m) (r_session r) = Some ?s'"
    using assms True
    by (simp add: run_finally_def Let_def prim_Some broadcast_frame broadcastSnapshot_frame
        run_exit_frame)
  moreover have "sent (run_finally t m) =
      sent m @ map (\<lambda>c. (c, StatusMsg Awaiting_hint (clock m))) (openClients m (r_session r))
        @ map (\<lambda>c. (c, Snapshot ?s')) (openClients m (r_session r))"
    using assms True
    by (simp add: run_finally_def Let_def prim_Some broadcast_frame broadcastSnapshot_def
        run_exit_frame broadcast_sent openClients_def open_filter_broadcast)
  then have "\<exists>pre. sent (run_finally t m) =
      sent m @ pre @ map (\<lambda>c. (c, Snapshot ?s')) (openClients m (r_session r))"
    by (rule exI)
  moreover have "runs (run_finally t m) t = None"
    using assms by (simp add: run_finally_def Let_def run_exit_runs_self)
  moreover have "activeStreams (run_finally t m) (r_session r) = None"
    using assms True
    by (simp add: run_finally_def Let_def prim_Some broadcast_frame broadcastSnapshot_frame
        run_exit_frame)
  ultimately show ?thesis using True by simp
next
  case False
  have "sessions (run_finally t m) (r_session r) = Some s"
    using assms False
    by (simp add: run_finally_def Let_def broadcastSnapshot_frame run_exit_frame)
  moreover have "sent (run_finally t m) =
      sent m @ [] @ map (\<lambda>c. (c, Snapshot s)) (openClients m (r_session r))"
    using assms False
    by (simp add: run_finally_def Let_def broadcastSnapshot_def
        run_exit_frame broadcast_sent openClients_def)
  then have "\<exists>pre. sent (run_finally t m) =
      sent m @ pre @ map (\<lambda>c. (c, Snapshot s)) (openClients m (r_session r))"
    by (rule exI)
  moreover have "runs (run_finally t m) t = None"
    using assms by (simp add: run_finally_def Let_def run_exit_runs_self)
  moreover have "activeStreams (run_finally t m) (r_session r) = None"
    using assms False
    by (simp add: run_finally_def Let_def broadcastSnapshot_frame run_exit_frame)
  ultimately show ?thesis using False by simp
qed

lemma removeSession_tail_present:
  assumes "sessions m sid = Some s"
  shows "\<exists>m'. removeSession_tail sid m = (True, m') \<and> sessions m' sid = None \<and> clients m' sid = None
           \<and> sent m' = sent m @ map (\<lambda>c. (c, Snapshot (s\<lparr>status := Cancelled, updatedAt := clock m\<rparr>)))
                                  (openClients m sid)
           \<and> closes m' = closes m @ map (\<lambda>c. (c, 1000, ''Session cancelled'')) (liveClients m sid)
           \<and> activeAgentCount m' = activeAgentCount m \<and> slotQueue m' = slotQueue m
           \<and> runs m' = runs m \<and> activeStreams m' = activeStreams m"
  using assms
  by (auto simp add: removeSession_tail_def Let_def broadcastSnapshot_def broadcast_def
      openClients_def liveClients_def split: option.split)





subsection \<open>Concrete runs\<close>

lemma exec_append: "exec (xs @ ys) m = exec ys (exec xs m)"
  by (simp add: exec_def)

lemma exec_Cons: "exec (a # as) m = exec as (step a m)"
  by (simp add: exec_def)

lemma exec_Nil: "exec [] m = m"
  by (simp add: exec_def)

lemma absent_stays_exec:
  "sessions m sid = None \<Longrightarrow> \<forall>a\<in>set as. \<forall>p w ar. a \<noteq> CreateSession p w ar \<Longrightarrow>
   sessions (exec as m) sid = None"
proof (induction as arbitrary: m)
  case Nil
  then show ?case by (simp add: exec_Nil)
next
  case (Cons a as)
  from Cons.prems have "sessions (step a m) sid = None"
    by (intro absent_stays) simp_all
  with Cons show ?case by (simp add: exec_Cons)
qed

lemma demo_session_exists: "sessions demo_manager 0 = Some demo_session"
  by (simp add: demo_manager_def)

lemma demo_run_exists: "runs demo_manager 0 = Some demo_run"
  by (simp add: demo_manager_def)

lemma waiting_session_exists:
  "sessions waiting_manager 0 = Some (demo_session\<lparr>status := Awaiting_hint\<rparr>)"
  by (simp add: waiting_manager_def)

lemma solved_output_parses: "parseAgentStructuredOutput (Some solved_output) = Some solved_output"
  by code_simp

lemma solved_output_status: "inferenceStatus solved_output = ''solved''"
  by code_simp

lemma completed_view:
  "sessionView (exec completed_trace (init None)) 0 =
     (Some (Completed, Some ''thread_A'', Some solved_output, 4), None)"
  by code_simp

lemma two_hints_queued_view:
  "slotView (exec two_hints_queued_trace (init (Some 2))) [3, 4] =
     (2, 2, [3, 4], [Some (0, Queued), Some (0, Queued)])"
  by code_simp

lemma two_hints_running_view:
  "slotView (exec two_hints_running_trace (init (Some 2))) [3, 4] =
     (2, 2, [], [Some (0, Pumping), Some (0, Pumping)])"
  by code_simp

text \<open>A hint is accepted whenever the session has a thread and no stored controller,
  whatever its status.\<close>

lemma submitHint_accepts:
  assumes "sessions m sid = Some s" and "nonEmpty (threadId s)" and "activeStreams m sid = None"
  shows "fst (submitHint sid hint m) = None
       \<and> (\<exists>s'. sessions (snd (submitHint sid hint m)) sid = Some s'
             \<and> status s' = Pending \<and> result s' = None
             \<and> length (events s) < length (events s'))"
proof -
  let ?e = "mkEvent \<lparr>level = Task, message = ''Operator hint received.'',
              details = Some (JObj [(''hint'', JStr (truncate_str (trim hint) 400))])\<rparr>
              (uuidCounter m) (clock m)"
  let ?s3 = "s\<lparr>updatedAt := clock m, events := events s @ [?e], status := Pending, result := None\<rparr>"
  obtain m3 where m3: "submitHint sid hint m = (None, runAgentSession sid Hint (Some (trim hint)) m3)"
    and s3: "sessions m3 sid = Some ?s3"
    using assms
    by (auto simp add: submitHint_def Let_def prim_Some broadcast_frame)
  from runAgentSession_session[OF s3, of Hint "Some (trim hint)"] m3
  show ?thesis by auto
qed


subsection \<open>One run per session (claim C1)\<close>

text \<open>
  Claim C1 says that while a run of a session is in flight a further invocation for the
  same session returns without effect, and that a session never waits on or holds a
  second slot, the guard being taken before admission. In \<^verbatim>\<open>runAgentSession\<close> the guard
  \<open>activeStreams\<close> is read at the call and written only after the slot, the prompt and
  the stream have been awaited. With two slots, both held by other sessions, two hints
  for the idle session 0 are both accepted: runs 3 and 4, both of session 0, stand in the
  slot queue together; once the two slots are released both runs read a stream of
  session 0 at once, each holding a slot.
\<close>

theorem C1_two_runs_of_one_session:
  "slotView (exec two_hints_queued_trace (init (Some 2))) [3, 4] =
     (2, 2, [3, 4], [Some (0, Queued), Some (0, Queued)])
   \<and> slotView (exec two_hints_running_trace (init (Some 2))) [3, 4] =
     (2, 2, [], [Some (0, Pumping), Some (0, Pumping)])"
  using two_hints_queued_view two_hints_running_view by simp


subsection \<open>The slot count and the queue (claims C2 and C8)\<close>

text \<open>What \<^verbatim>\<open>releaseAgentSlot\<close> does to the queue: the head, and only the head, is
  resolved.\<close>

lemma releaseAgentSlot_wakes_head:
  assumes "slotQueue m = t # rest" and "runs m t = Some r"
  shows "slotQueue (releaseAgentSlot m) = rest
       \<and> runs (releaseAgentSlot m) t = Some (r\<lparr>r_pc := Woken\<rparr>)
       \<and> (\<forall>t'. t' \<noteq> t \<longrightarrow> runs (releaseAgentSlot m) t' = runs m t')"
  using assms by (simp add: releaseAgentSlot_queue releaseAgentSlot_runs)




subsection \<open>Terminal statuses (claim C3)\<close>

text \<open>
  Claim C3, as amended: \<open>Cancelled\<close> is final. Removing a session that exists sends
  its snapshot with status \<open>Cancelled\<close> to the open subscribers and drops the record
  in the same step; from then on the record is absent after any sequence of hints,
  removals, stream events and resumptions (creations make other records), and a hint for
  it fails with \<^verbatim>\<open>SESSION_NOT_FOUND\<close> and changes nothing.
\<close>

theorem C3_cancelled_is_final:
  assumes "sessions m sid = Some s"
  shows "fst (removeSession_tail sid m)
       \<and> sent (snd (removeSession_tail sid m)) =
           sent m @ map (\<lambda>c. (c, Snapshot (s\<lparr>status := Cancelled, updatedAt := clock m\<rparr>)))
                        (openClients m sid)
       \<and> sessions (snd (removeSession_tail sid m)) sid = None
       \<and> (\<forall>as. (\<forall>a\<in>set as. \<forall>p w ar. a \<noteq> CreateSession p w ar) \<longrightarrow>
             sessions (exec as (snd (removeSession_tail sid m))) sid = None)
       \<and> (\<forall>hint. submitHint sid hint (snd (removeSession_tail sid m)) =
             (Some (SessionManagerError ''Session not found.'' 404 ''SESSION_NOT_FOUND''),
              snd (removeSession_tail sid m)))"
proof -
  from removeSession_tail_present[OF assms] obtain m' where
    r: "removeSession_tail sid m = (True, m')" and gone: "sessions m' sid = None"
    and snt: "sent m' = sent m @ map (\<lambda>c. (c, Snapshot (s\<lparr>status := Cancelled, updatedAt := clock m\<rparr>)))
                                     (openClients m sid)"
    by blast
  have stays: "\<forall>as. (\<forall>a\<in>set as. \<forall>p w ar. a \<noteq> CreateSession p w ar) \<longrightarrow>
             sessions (exec as m') sid = None"
    using absent_stays_exec[OF gone] by blast
  have hint: "\<forall>hint. submitHint sid hint m' =
             (Some (SessionManagerError ''Session not found.'' 404 ''SESSION_NOT_FOUND''), m')"
    using gone by (simp add: submitHint_def)
  from r gone snt stays hint show ?thesis by simp
qed

text \<open>Claim C3, the amended statement at the waiting session 0.\<close>

theorem C3_witness:
  "sessions waiting_manager 0 = Some (demo_session\<lparr>status := Awaiting_hint\<rparr>)
   \<and> fst (removeSession_tail 0 waiting_manager)
   \<and> sessions (exec [SubmitHint 0 ''again'', RemoveSession 0, Tick]
                 (snd (removeSession_tail 0 waiting_manager))) 0 = None"
proof -
  have "\<forall>a\<in>set [SubmitHint 0 ''again'', RemoveSession 0, Tick]. \<forall>p w ar. a \<noteq> CreateSession p w ar"
    by simp
  with C3_cancelled_is_final [OF waiting_session_exists] waiting_session_exists
  show ?thesis by blast
qed

text \<open>
  Claim C3 as stated fails for \<open>Completed\<close>: \<^verbatim>\<open>submitHint\<close> never reads the status. The
  session whose first run reported \<^verbatim>\<open>solved\<close> is completed, and a hint moves it to
  \<open>Pending\<close>.
\<close>

theorem C3_counterexample:
  "map_option status (sessions (exec completed_trace (init None)) 0) = Some Completed
   \<and> map_option status
       (sessions (step (SubmitHint 0 ''one more idea'') (exec completed_trace (init None))) 0) =
     Some Pending"
proof -
  from completed_view obtain s where
    s: "sessions (exec completed_trace (init None)) 0 = Some s"
    and st: "status s = Completed" and th: "threadId s = Some ''thread_A''"
    and free: "activeStreams (exec completed_trace (init None)) 0 = None"
    by (auto simp add: sessionView_def)
  from th have "nonEmpty (threadId s)" by (simp add: nonEmpty_def)
  from submitHint_accepts[OF s this free, of "''one more idea''"] s st
  show ?thesis by (auto simp add: step_def)
qed


subsection \<open>Rejected hints (claim C4)\<close>

text \<open>
  Claim C4, as amended: \<^verbatim>\<open>submitHint\<close> fails and leaves the whole state as it was when
  the session does not exist (\<^verbatim>\<open>SESSION_NOT_FOUND\<close>), when its thread is not established
  (\<^verbatim>\<open>SESSION_THREAD_UNAVAILABLE\<close>), and when a controller is stored for it, which is so
  while its run reads the stream (\<^verbatim>\<open>SESSION_BUSY\<close>). The status is not read: in every
  other case the hint is accepted, an event is appended, the status becomes \<open>Pending\<close>
  and \<open>result\<close> is cleared.
\<close>

theorem C4_submitHint_checks:
  "(sessions m sid = None \<longrightarrow>
      submitHint sid hint m = (Some (SessionManagerError ''Session not found.'' 404 ''SESSION_NOT_FOUND''), m))
   \<and> (\<forall>s. sessions m sid = Some s \<and> \<not> nonEmpty (threadId s) \<longrightarrow>
          submitHint sid hint m =
            (Some (SessionManagerError
               ''Session has not established a Codex thread yet. Wait for the initial run to finish.''
               409 ''SESSION_THREAD_UNAVAILABLE''), m))
   \<and> (\<forall>s. sessions m sid = Some s \<and> nonEmpty (threadId s) \<and> activeStreams m sid \<noteq> None \<longrightarrow>
          submitHint sid hint m =
            (Some (SessionManagerError
               ''Session is already processing. Try again after the current run completes.''
               409 ''SESSION_BUSY''), m))
   \<and> (\<forall>s. sessions m sid = Some s \<and> nonEmpty (threadId s) \<and> activeStreams m sid = None \<longrightarrow>
          fst (submitHint sid hint m) = None
          \<and> (\<exists>s'. sessions (snd (submitHint sid hint m)) sid = Some s'
                \<and> status s' = Pending \<and> result s' = None
                \<and> length (events s) < length (events s')))"
  using submitHint_accepts[of m sid _ hint] by (auto simp add: submitHint_def)

text \<open>Claim C4, the amended statement at session 0 while run 0 reads its stream: the
  status is \<open>Running\<close> and the hint is refused.\<close>

theorem C4_witness:
  "sessions demo_manager 0 = Some demo_session
   \<and> status demo_session = Running
   \<and> nonEmpty (threadId demo_session)
   \<and> activeStreams demo_manager 0 \<noteq> None
   \<and> submitHint 0 ''try the parser'' demo_manager =
       (Some (SessionManagerError
          ''Session is already processing. Try again after the current run completes.''
          409 ''SESSION_BUSY''), demo_manager)"
proof -
  have a: "nonEmpty (threadId demo_session)" by (simp add: nonEmpty_def demo_session_def)
  have b: "activeStreams demo_manager 0 \<noteq> None" by (simp add: demo_manager_def)
  have c: "status demo_session = Running" by (simp add: demo_session_def)
  from C4_submitHint_checks [of demo_manager 0 "''try the parser''"] demo_session_exists a b c
  show ?thesis by blast
qed

text \<open>
  Claim C4 as stated fails for a session in a terminal state: the completed session
  accepts a hint, which clears its \<open>result\<close>.
\<close>

theorem C4_counterexample:
  "map_option status (sessions (exec completed_trace (init None)) 0) = Some Completed
   \<and> map_option result (sessions (exec completed_trace (init None)) 0) = Some (Some solved_output)
   \<and> fst (submitHint 0 ''one more idea'' (exec completed_trace (init None))) = None
   \<and> map_option result
       (sessions (snd (submitHint 0 ''one more idea'' (exec completed_trace (init None)))) 0) =
     Some None"
proof -
  from completed_view obtain s where
    s: "sessions (exec completed_trace (init None)) 0 = Some s"
    and st: "status s = Completed" and th: "threadId s = Some ''thread_A''"
    and res: "result s = Some solved_output"
    and free: "activeStreams (exec completed_trace (init None)) 0 = None"
    by (auto simp add: sessionView_def)
  from th have "nonEmpty (threadId s)" by (simp add: nonEmpty_def)
  from submitHint_accepts[OF s this free, of "''one more idea''"] s st res
  show ?thesis by auto
qed


subsection \<open>Structured output (claim C5)\<close>

text \<open>
  Claim C5. For a session that exists: when the text of a completed agent message parses
  against the result schema, the parsed value becomes \<open>result\<close> as a whole and the
  status becomes \<open>Completed\<close> exactly when the inference outcome is \<^verbatim>\<open>solved\<close>, and
  \<open>Awaiting_hint\<close> otherwise; when it does not parse, the session changes by one
  appended \<open>Info\<close> event (and \<open>updatedAt\<close>) and nothing else, so \<open>result\<close> and
  \<open>status\<close> stay.
\<close>

theorem C5_structured_output_drives_status:
  assumes "sessions m sid = Some s"
  shows "(\<forall>v. parseAgentStructuredOutput parsed = Some v \<longrightarrow>
            (\<exists>m' s'. handleAgentMessage sid txt parsed m = Inr m' \<and> sessions m' sid = Some s'
               \<and> result s' = Some v
               \<and> status s' = (if inferenceStatus v = ''solved'' then Completed else Awaiting_hint)))
       \<and> (parseAgentStructuredOutput parsed = None \<longrightarrow>
            (\<exists>m'. handleAgentMessage sid txt parsed m = Inr m'
               \<and> sessions m' sid =
                   Some (s\<lparr>updatedAt := clock m,
                           events := events s @
                             [mkEvent \<lparr>level = Info, message = ''Agent response'',
                                       details = Some (JObj [(''content'', JStr (truncate_str txt 600))])\<rparr>
                                (uuidCounter m) (clock m)]\<rparr>)))"
  using assms
  by (auto simp add: handleAgentMessage_def andThen_def Let_def prim_Some broadcast_frame
      broadcastSnapshot_frame)

text \<open>Claim C5 at the running session 0: the solved output, and a text that does not parse.\<close>

theorem C5_witness:
  "sessions demo_manager 0 = Some demo_session
   \<and> (\<exists>m' s'. handleAgentMessage 0 ''{...}'' (Some solved_output) demo_manager = Inr m'
         \<and> sessions m' 0 = Some s' \<and> result s' = Some solved_output \<and> status s' = Completed)
   \<and> (\<exists>m'. handleAgentMessage 0 ''Working on it'' None demo_manager = Inr m'
         \<and> map_option result (sessions m' 0) = Some None
         \<and> map_option status (sessions m' 0) = Some Running)"
proof -
  have a: "\<exists>m' s'. handleAgentMessage 0 ''{...}'' (Some solved_output) demo_manager = Inr m'
         \<and> sessions m' 0 = Some s' \<and> result s' = Some solved_output \<and> status s' = Completed"
    using C5_structured_output_drives_status [OF demo_session_exists, of "Some solved_output" "''{...}''"]
      solved_output_parses solved_output_status
    by simp
  have n: "parseAgentStructuredOutput None = None"
    by (simp add: parseAgentStructuredOutput_def)
  have b: "\<exists>m'. handleAgentMessage 0 ''Working on it'' None demo_manager = Inr m'
         \<and> map_option result (sessions m' 0) = Some None
         \<and> map_option status (sessions m' 0) = Some Running"
    using C5_structured_output_drives_status [OF demo_session_exists, of None "''Working on it''"] n
    by (auto simp add: demo_session_def)
  from demo_session_exists a b show ?thesis by blast
qed


subsection \<open>The end of a stream (claim C6)\<close>

text \<open>
  Claim C6. A run that reads its stream and was not cancelled, for a session that
  exists: when the stream is exhausted, a status \<open>Running\<close> becomes \<open>Awaiting_hint\<close>
  (any other status stays), the snapshot of the session as it then is goes to every open
  subscriber as the last message, the controller is dropped and the run is over; the
  session is not left \<open>Running\<close>. When the stream fails instead, the status becomes
  \<open>Awaiting_hint\<close> as well.
\<close>

theorem C6_stream_end_leaves_no_running:
  assumes "runs m t = Some r" and "r_pc r = Pumping" and "\<not> r_cancelled r"
    and "sessions m (r_session r) = Some s"
  shows "(\<exists>s'. sessions (step (StreamDone t) m) (r_session r) = Some s'
            \<and> status s' = (if status s = Running then Awaiting_hint else status s)
            \<and> status s' \<noteq> Running
            \<and> (\<exists>pre. sent (step (StreamDone t) m) =
                   sent m @ pre @ map (\<lambda>c. (c, Snapshot s')) (openClients m (r_session r)))
            \<and> runs (step (StreamDone t) m) t = None
            \<and> activeStreams (step (StreamDone t) m) (r_session r) = None)
       \<and> (\<exists>s'. sessions (step (StreamError t err) m) (r_session r) = Some s'
            \<and> status s' = Awaiting_hint
            \<and> runs (step (StreamError t err) m) t = None)"
proof -
  have pc: "pc_of m t = Some Pumping"
    using assms(1,2) by (simp add: pc_of_def)
  have d: "step (StreamDone t) m = run_finally t m"
    using pc by (simp add: step_def)
  have a: "\<exists>s'. sessions (step (StreamDone t) m) (r_session r) = Some s'
            \<and> status s' = (if status s = Running then Awaiting_hint else status s)
            \<and> status s' \<noteq> Running
            \<and> (\<exists>pre. sent (step (StreamDone t) m) =
                   sent m @ pre @ map (\<lambda>c. (c, Snapshot s')) (openClients m (r_session r)))
            \<and> runs (step (StreamDone t) m) t = None
            \<and> activeStreams (step (StreamDone t) m) (r_session r) = None"
    using run_finally_live[OF assms(1,3,4)] unfolding d by auto
  let ?msg = "case err of Some e \<Rightarrow> e | None \<Rightarrow> ''Unexpected Codex streaming error.''"
  let ?e = "mkEvent \<lparr>level = Error_level, message = ?msg, details = None\<rparr> (uuidCounter m) (clock m)"
  let ?s2 = "s\<lparr>updatedAt := clock m, events := events s @ [?e], status := Awaiting_hint,
               error := Some ?msg\<rparr>"
  obtain m2 where e: "step (StreamError t err) m = run_finally t m2"
    and r2: "runs m2 t = Some r" and s2: "sessions m2 (r_session r) = Some ?s2"
    using pc assms
    by (auto simp add: step_def run_catch_def andThen_def Let_def prim_Some broadcast_frame)
  have b: "\<exists>s'. sessions (step (StreamError t err) m) (r_session r) = Some s'
            \<and> status s' = Awaiting_hint
            \<and> runs (step (StreamError t err) m) t = None"
    using run_finally_live[OF r2 assms(3) s2] unfolding e by auto
  from a b show ?thesis by blast
qed

text \<open>Claim C6 at run 0 of the running session 0.\<close>

theorem C6_witness:
  "runs demo_manager 0 = Some demo_run
   \<and> r_pc demo_run = Pumping
   \<and> \<not> r_cancelled demo_run
   \<and> sessions demo_manager (r_session demo_run) = Some demo_session
   \<and> status demo_session = Running
   \<and> (\<exists>s'. sessions (step (StreamDone 0) demo_manager) 0 = Some s' \<and> status s' = Awaiting_hint)"
proof -
  have p: "r_pc demo_run = Pumping" and c: "\<not> r_cancelled demo_run" and z: "r_session demo_run = 0"
    by (simp_all add: demo_run_def)
  have s: "sessions demo_manager (r_session demo_run) = Some demo_session"
    using demo_session_exists z by simp
  have r: "status demo_session = Running" by (simp add: demo_session_def)
  from C6_stream_end_leaves_no_running [OF demo_run_exists p c s, of None] z r
  have "\<exists>s'. sessions (step (StreamDone 0) demo_manager) 0 = Some s' \<and> status s' = Awaiting_hint"
    by auto
  with demo_run_exists p c s r show ?thesis by blast
qed


subsection \<open>Cancellation (claim C7)\<close>




subsection \<open>The thread identifier (claim C9)\<close>

text \<open>
  Claim C9, as amended. For a session that exists: a thread-established event writes
  the identifier it carries into \<open>threadId\<close>, whatever was there, and every other event
  leaves \<open>threadId\<close> as it was; no action of the manager other than the delivery of a
  thread-established event (and a creation, which makes another record) changes the
  \<open>threadId\<close> of a session that remains; and a run that starts for a session with a
  non-empty \<open>threadId\<close> resumes that thread and leaves the identifier as it was.
\<close>

theorem C9_threadId_writers:
  assumes "sessions m sid = Some s"
  shows "(\<exists>m' s'. handleThreadEvent sid ev m = Inr m' \<and> sessions m' sid = Some s'
            \<and> threadId s' = (case ev of ThreadStarted th \<Rightarrow> Some th | _ \<Rightarrow> threadId s))
       \<and> (\<forall>a s'. (\<forall>p w ar. a \<noteq> CreateSession p w ar) \<and> (\<forall>t th. a \<noteq> StreamItem t (ThreadStarted th))
             \<and> sessions (step a m) sid = Some s' \<longrightarrow> threadId s' = threadId s)
       \<and> (\<forall>t r th. runs m t = Some r \<and> r_session r = sid \<and> threadId s = Some th \<and> th \<noteq> [] \<longrightarrow>
             pc_of (run_begin t prompt m) t = Some (AwaitStream (ResumeThread th prompt))
             \<and> map_option threadId (sessions (run_begin t prompt m) sid) = Some (Some th))"
proof -
  have b: "\<forall>a s'. (\<forall>p w ar. a \<noteq> CreateSession p w ar) \<and> (\<forall>t th. a \<noteq> StreamItem t (ThreadStarted th))
             \<and> sessions (step a m) sid = Some s' \<longrightarrow> threadId s' = threadId s"
  proof (intro allI impI)
    fix a s'
    assume h: "(\<forall>p w ar. a \<noteq> CreateSession p w ar) \<and> (\<forall>t th. a \<noteq> StreamItem t (ThreadStarted th))
             \<and> sessions (step a m) sid = Some s'"
    then have "keeps m (step a m)" by (intro keeps_step) simp_all
    with h assms show "threadId s' = threadId s" by (fastforce simp add: keeps_def)
  qed
  have c: "\<forall>t r th. runs m t = Some r \<and> r_session r = sid \<and> threadId s = Some th \<and> th \<noteq> [] \<longrightarrow>
             pc_of (run_begin t prompt m) t = Some (AwaitStream (ResumeThread th prompt))
             \<and> map_option threadId (sessions (run_begin t prompt m) sid) = Some (Some th)"
    using assms
    by (auto simp add: run_begin_def andThen_def Let_def prim_Some broadcast_frame pc_of_def
        set_pc_frame set_pc_runs)
  from handleThreadEvent_threadId[OF assms, of ev] b c show ?thesis by blast
qed

text \<open>Claim C9, the amended statement at the running session 0 and a turn event.\<close>

theorem C9_witness:
  "sessions demo_manager 0 = Some demo_session
   \<and> (\<exists>m' s'. handleThreadEvent 0 TurnStarted demo_manager = Inr m' \<and> sessions m' 0 = Some s'
         \<and> threadId s' = Some ''thread_A'')"
proof -
  have "threadId demo_session = Some ''thread_A''" by (simp add: demo_session_def)
  with C9_threadId_writers [OF demo_session_exists, of TurnStarted] demo_session_exists
  show ?thesis by auto
qed

text \<open>
  Claim C9 as stated fails: the handler of the thread-established event assigns without
  looking. Session 0 has thread \<^verbatim>\<open>thread_A\<close>; the run that resumes it for a hint reads
  a thread-established event carrying \<^verbatim>\<open>thread_B\<close>, and \<open>threadId\<close> is \<^verbatim>\<open>thread_B\<close>.
\<close>

theorem C9_counterexample:
  "map_option threadId (sessions (exec idle_trace (init None)) 0) = Some (Some ''thread_A'')
   \<and> map_option threadId (sessions (exec rethread_trace (init None)) 0) = Some (Some ''thread_B'')"
  by code_simp


subsection \<open>The details of the status report (claim C10)\<close>

text \<open>
  Claim C10, as amended. For a session that exists and a text that parses to an output
  with no property \<^verbatim>\<open>solveCodePath\<close> and no property \<^verbatim>\<open>writeUpPath\<close> (as the schema's
  seven properties have it): the last event of the session is the status report, its
  details are \<open>detailPayload\<close> of the output and carry \<^verbatim>\<open>null\<close> under \<^verbatim>\<open>solveCodePath\<close>
  and under \<^verbatim>\<open>writeUpPath\<close>; and the details are the same for any output that differs
  only in \<^verbatim>\<open>solveCode\<close> and \<^verbatim>\<open>writeUp\<close>, so neither is ever copied into them.
\<close>

theorem C10_report_details:
  assumes "sessions m sid = Some s" and "parseAgentStructuredOutput parsed = Some v"
    and "getProp v ''solveCodePath'' = None" and "getProp v ''writeUpPath'' = None"
  shows "\<exists>m' e. handleAgentMessage sid txt parsed m = Inr m' \<and> lastEvent m' sid = Some e
           \<and> message e = ''Agent reported status: '' @ inferenceStatus v
           \<and> details e = Some (detailPayload v)
           \<and> getProp (detailPayload v) ''solveCodePath'' = Some JNull
           \<and> getProp (detailPayload v) ''writeUpPath'' = Some JNull
           \<and> (\<forall>v'. (\<forall>k. k \<noteq> ''solveCode'' \<and> k \<noteq> ''writeUp'' \<longrightarrow> getProp v' k = getProp v k)
                  \<longrightarrow> detailPayload v' = detailPayload v)"
proof -
  have ev: "\<exists>m' e. handleAgentMessage sid txt parsed m = Inr m' \<and> lastEvent m' sid = Some e
           \<and> message e = ''Agent reported status: '' @ inferenceStatus v
           \<and> details e = Some (detailPayload v)"
    using assms(1,2)
    by (auto simp add: handleAgentMessage_def andThen_def Let_def prim_Some broadcast_frame
        broadcastSnapshot_frame lastEvent_def mkEvent_def)
  have p1: "getProp (detailPayload v) ''solveCodePath'' = Some JNull"
    using assms(3) by (simp add: detailPayload_def getProp_def orNull_def)
  have p2: "getProp (detailPayload v) ''writeUpPath'' = Some JNull"
    using assms(4) by (simp add: detailPayload_def getProp_def orNull_def)
  have ind: "\<forall>v'. (\<forall>k. k \<noteq> ''solveCode'' \<and> k \<noteq> ''writeUp'' \<longrightarrow> getProp v' k = getProp v k)
                  \<longrightarrow> detailPayload v' = detailPayload v"
    by (simp add: detailPayload_def)
  from ev p1 p2 ind show ?thesis by blast
qed

text \<open>Claim C10, the amended statement at the running session 0 and the solved output.\<close>

theorem C10_witness:
  "sessions demo_manager 0 = Some demo_session
   \<and> parseAgentStructuredOutput (Some solved_output) = Some solved_output
   \<and> getProp solved_output ''solveCodePath'' = None
   \<and> getProp solved_output ''writeUpPath'' = None
   \<and> (\<exists>m' e. handleAgentMessage 0 ''{...}'' (Some solved_output) demo_manager = Inr m'
         \<and> lastEvent m' 0 = Some e \<and> details e = Some (detailPayload solved_output))
   \<and> getProp (detailPayload solved_output) ''solveCodePath'' = Some JNull
   \<and> getProp (detailPayload solved_output) ''writeUpPath'' = Some JNull"
proof -
  have a: "getProp solved_output ''solveCodePath'' = None" by code_simp
  have b: "getProp solved_output ''writeUpPath'' = None" by code_simp
  from C10_report_details [OF demo_session_exists solved_output_parses a b, of "''{...}''"]
    demo_session_exists solved_output_parses a b
  show ?thesis by blast
qed

text \<open>
  Claim C10 as stated fails: the handler reads \<^verbatim>\<open>solveCodePath\<close> off the parsed object,
  and \<open>isAgentStructuredOutput\<close> lets an object with that property pass. The report of
  such an output carries the property's value, not \<^verbatim>\<open>null\<close>.
\<close>

theorem C10_counterexample:
  "parseAgentStructuredOutput (Some path_output) = Some path_output
   \<and> map_option (\<lambda>e. (message e, getProp (orNull (details e)) ''solveCodePath''))
       (lastEvent (exec path_trace (init None)) 0) =
     Some (''Agent reported status: solved'', Some (JStr ''/tmp/solve.py''))"
  by code_simp

end
